theory Spec2Isabelle
  imports Complex_Main
begin

section \<open>Data model of script.js\<close>

text \<open>
  A grid position or a direction vector is the object \<open>{x, y}\<close> of the script: a pair of
  integers, \<open>fst\<close> the field \<open>x\<close> and \<open>snd\<close> the field \<open>y\<close>. JavaScript numbers that
  hold grid coordinates, the score and the growth counter are integers. A finite double
  is the real number it denotes. The arithmetic of the particle loop is the arithmetic of
  doubles, which rounds: see \<open>binary64\<close> below. The arithmetic of the timing code and of
  \<open>spawnEatParticles\<close> is exact.
\<close>

type_synonym cell = "int \<times> int"

text \<open>A particle object \<open>{x, y, vx, vy, life, size}\<close>; the fields carry the prefix \<open>p_\<close>.\<close>

record particle =
  p_x :: real
  p_y :: real
  p_vx :: real
  p_vy :: real
  p_life :: real
  p_size :: int

text \<open>
  The variables of the script's closure. \<open>lastT\<close> is the variable \<open>last\<close> of the main
  loop. \<open>Math.random()\<close> is the pair \<open>rng\<close>, \<open>rcount\<close>: the \<open>k\<close>-th call of the run
  returns \<open>rng k\<close>, and \<open>rcount\<close> counts the calls made so far.
\<close>

record state =
  running :: bool
  playing :: bool
  gameOver :: bool
  score :: int
  stepProgress :: real
  snake :: "cell list"
  prevSnake :: "cell list"
  dir :: cell
  nextDir :: cell
  grow :: int
  food :: "cell option"
  particles :: "particle list"
  lastT :: real
  rng :: "nat \<Rightarrow> real"
  rcount :: nat

definition CELL :: int where "CELL = 14"
definition GRID_W :: int where "GRID_W = 40"
definition GRID_H :: int where "GRID_H = 28"
definition STEPS_PER_SECOND :: real where "STEPS_PER_SECOND = 7.5"

definition DIRS_left :: cell where "DIRS_left = (-1, 0)"
definition DIRS_right :: cell where "DIRS_right = (1, 0)"
definition DIRS_up :: cell where "DIRS_up = (0, -1)"
definition DIRS_down :: cell where "DIRS_down = (0, 1)"

text \<open>
  The table \<open>keyDirMap\<close>, read at the \<open>code\<close> of a keyboard event; a code that is not
  one of its eight keys gives \<open>undefined\<close>, here \<open>None\<close>.
\<close>

definition keyDirMap :: "string \<Rightarrow> cell option" where
  "keyDirMap code =
     (if code = ''ArrowLeft'' \<or> code = ''KeyA'' then Some DIRS_left
      else if code = ''ArrowRight'' \<or> code = ''KeyD'' then Some DIRS_right
      else if code = ''ArrowUp'' \<or> code = ''KeyW'' then Some DIRS_up
      else if code = ''ArrowDown'' \<or> code = ''KeyS'' then Some DIRS_down
      else None)"

section \<open>Operations\<close>

text \<open>One call of \<open>Math.random()\<close>.\<close>

definition random :: "state \<Rightarrow> real \<times> state" where
  "random s = (rng s (rcount s), s\<lparr>rcount := Suc (rcount s)\<rparr>)"

text \<open>\<open>snake.some(s => s.x === fx && s.y === fy)\<close>\<close>

definition occupied :: "cell list \<Rightarrow> int \<Rightarrow> int \<Rightarrow> bool" where
  "occupied body fx fy = list_ex (\<lambda>c. fst c = fx \<and> snd c = fy) body"

text \<open>The \<open>while (tries < 1000)\<close> loop of \<open>placeFood\<close> and its fallback.\<close>

function placeFood_loop :: "nat \<Rightarrow> state \<Rightarrow> state" where
  "placeFood_loop tries s =
     (if tries < 1000 then
        (let fx = \<lfloor>fst (random s) * real_of_int GRID_W\<rfloor>;
             s1 = snd (random s);
             fy = \<lfloor>fst (random s1) * real_of_int GRID_H\<rfloor>;
             s2 = snd (random s1);
             collision = occupied (snake s2) fx fy
         in if \<not> collision then s2\<lparr>food := Some (fx, fy)\<rparr>
            else placeFood_loop (Suc tries) s2)
      else s\<lparr>food := Some (1, 1)\<rparr>)"
  by pat_completeness auto
termination
  by (relation "measure (\<lambda>(tries, s). 1000 - tries)") auto

definition placeFood :: "state \<Rightarrow> state" where
  "placeFood s = placeFood_loop 0 s"

text \<open>
  \<open>startNewGame\<close>: the assignments in the order of the source. \<open>nextDir = dir\<close> copies
  the direction assigned on the line before, \<open>DIRS.right\<close>; \<open>Math.floor(GRID_W / 2)\<close> is
  the integer quotient.
\<close>

definition startNewGame :: "state \<Rightarrow> state" where
  "startNewGame s =
     (let cx = GRID_W div 2;
          cy = GRID_H div 2;
          body = [(cx - 3, cy), (cx - 2, cy), (cx - 1, cy), (cx, cy)]
      in placeFood
           (s\<lparr>score := 0, gameOver := False, playing := True,
              snake := body, prevSnake := map (\<lambda>p. (fst p, snd p)) body,
              dir := DIRS_right, nextDir := DIRS_right, grow := 0,
              stepProgress := 0\<rparr>))"

text \<open>
  The \<open>for\<close> loop of \<open>spawnEatParticles\<close>, on the number of particles still to push.
  Each particle draws four random numbers: angle, speed, life, size.
\<close>

fun spawn_loop :: "real \<Rightarrow> real \<Rightarrow> nat \<Rightarrow> state \<Rightarrow> state" where
  "spawn_loop cx cy 0 s = s"
| "spawn_loop cx cy (Suc k) s =
     (let angle = fst (random s) * pi * 2;
          s1 = snd (random s);
          speed = 30 + fst (random s1) * 120;
          s2 = snd (random s1);
          lf = 0.6 + fst (random s2) * 0.4;
          s3 = snd (random s2);
          sz = 1 + \<lfloor>fst (random s3) * 3\<rfloor>;
          s4 = snd (random s3);
          p = \<lparr>p_x = cx, p_y = cy, p_vx = cos angle * speed, p_vy = sin angle * speed,
               p_life = lf, p_size = sz\<rparr>
      in spawn_loop cx cy k (s4\<lparr>particles := particles s4 @ [p]\<rparr>))"

definition spawnEatParticles :: "int \<Rightarrow> int \<Rightarrow> nat \<Rightarrow> state \<Rightarrow> state" where
  "spawnEatParticles gridX gridY n s =
     (let cx = (real_of_int gridX + 0.5) * real_of_int CELL;
          cy = (real_of_int gridY + 0.5) * real_of_int CELL
      in spawn_loop cx cy n s)"

definition spawnDeathParticles :: "int \<Rightarrow> int \<Rightarrow> nat \<Rightarrow> state \<Rightarrow> state" where
  "spawnDeathParticles gridX gridY n s = spawnEatParticles gridX gridY n s"

text \<open>
  \<open>snake[snake.length-1]\<close> of an empty array is \<open>undefined\<close>, and reading its field
  \<open>x\<close> throws a TypeError: the result \<open>None\<close>.
\<close>

definition triggerGameOver :: "state \<Rightarrow> state option" where
  "triggerGameOver s =
     (let s1 = s\<lparr>gameOver := True, playing := False\<rparr>
      in if snake s1 = [] then None
         else Some (spawnDeathParticles (fst (last (snake s1))) (snd (last (snake s1))) 36 s1))"

text \<open>
  \<open>stepSnake\<close>: snapshot, new head, wall test, body test, push, decrement or shift, meal.
  With an empty snake \<open>head\<close> is \<open>undefined\<close> and \<open>head.x\<close> throws.
\<close>

definition stepSnake :: "state \<Rightarrow> state option" where
  "stepSnake s0 =
     (let s = s0\<lparr>prevSnake := map (\<lambda>c. (fst c, snd c)) (snake s0)\<rparr>
      in if snake s = [] then None
         else
           (let head = last (snake s);
                newHead = (fst head + fst (dir s), snd head + snd (dir s))
            in if fst newHead < 0 \<or> fst newHead \<ge> GRID_W
                  \<or> snd newHead < 0 \<or> snd newHead \<ge> GRID_H
               then triggerGameOver s
               else if occupied (snake s) (fst newHead) (snd newHead)
               then triggerGameOver s
               else
                 (let s1 = s\<lparr>snake := snake s @ [newHead]\<rparr>;
                      s2 = (if grow s1 > 0 then s1\<lparr>grow := grow s1 - 1\<rparr>
                            else s1\<lparr>snake := tl (snake s1)\<rparr>)
                  in case food s2 of
                       None \<Rightarrow> Some s2
                     | Some f \<Rightarrow>
                         if fst newHead = fst f \<and> snd newHead = snd f
                         then Some (placeFood
                                (spawnEatParticles (fst f) (snd f) 18
                                   (s2\<lparr>score := score s2 + 10, grow := grow s2 + 2\<rparr>)))
                         else Some s2)))"

definition queueDirection :: "cell \<Rightarrow> state \<Rightarrow> state" where
  "queueDirection d s =
     (if (fst d + fst (dir s) = 0 \<and> snd d + snd (dir s) = 0)
         \<or> (fst d + fst (nextDir s) = 0 \<and> snd d + snd (nextDir s) = 0)
      then s
      else s\<lparr>nextDir := d\<rparr>)"

text \<open>The \<open>keydown\<close> listener, on the event's \<open>code\<close>.\<close>

definition keydown :: "string \<Rightarrow> state \<Rightarrow> state" where
  "keydown code s =
     (let s1 = (if code = ''Space'' then (if \<not> playing s then startNewGame s else s) else s)
      in case keyDirMap code of
           None \<Rightarrow> s1
         | Some d \<Rightarrow> queueDirection d s1)"

text \<open>
  The \<open>for\<close> loop of the main loop that issues the due steps, on the number of
  iterations left; it breaks as soon as \<open>playing\<close> is false.
\<close>

fun run_steps :: "nat \<Rightarrow> state \<Rightarrow> state option" where
  "run_steps 0 s = Some s"
| "run_steps (Suc n) s =
     (if \<not> playing s then Some s
      else case stepSnake s of
             None \<Rightarrow> None
           | Some s' \<Rightarrow> run_steps n s')"

text \<open>The block \<open>if (playing) { ... }\<close> of the main loop, for the clamped \<open>dt\<close>.\<close>

definition loop_steps :: "real \<Rightarrow> state \<Rightarrow> state option" where
  "loop_steps dt s =
     (if playing s then
        (let s1 = (if \<not> gameOver s then s\<lparr>dir := nextDir s\<rparr> else s);
             s2 = s1\<lparr>stepProgress := stepProgress s1 + dt * STEPS_PER_SECOND\<rparr>
         in if stepProgress s2 \<ge> 1 then
              (let stepsToDo = \<lfloor>stepProgress s2\<rfloor>;
                   s3 = s2\<lparr>stepProgress := stepProgress s2 - real_of_int stepsToDo\<rparr>
               in run_steps (nat stepsToDo) s3)
            else Some s2)
      else Some s)"

text \<open>
  The arithmetic of JavaScript numbers, as the particle loop uses it: addition,
  subtraction, multiplication, and the value of a decimal literal.
\<close>

record arith =
  fl_add :: "real \<Rightarrow> real \<Rightarrow> real"
  fl_sub :: "real \<Rightarrow> real \<Rightarrow> real"
  fl_mul :: "real \<Rightarrow> real \<Rightarrow> real"
  fl_lit :: "real \<Rightarrow> real"

text \<open>
  IEEE 754 binary64 with the default rounding, which is what JavaScript prescribes: the
  result of an operation is the exact result rounded to the nearest number with a 53-bit
  significand, ties to the even significand. \<open>dbl x\<close> is that rounding: \<open>e\<close> is the
  exponent of \<open>x\<close>, not below that of the subnormal numbers, and \<open>u\<close> the spacing of the
  doubles at that exponent. Results beyond the largest double (\<open>Infinity\<close>) are not
  represented: no particle of the game comes near them.
\<close>

definition round_half_even :: "real \<Rightarrow> int" where
  "round_half_even y =
     (let f = \<lfloor>y\<rfloor>
      in if y - real_of_int f < 1 / 2 then f
         else if 1 / 2 < y - real_of_int f then f + 1
         else if even f then f else f + 1)"

definition dbl :: "real \<Rightarrow> real" where
  "dbl x =
     (if x = 0 then 0
      else
        (let e = max \<lfloor>log 2 \<bar>x\<bar>\<rfloor> (- 1022);
             u = 2 powr real_of_int (e - 52)
         in real_of_int (round_half_even (x / u)) * u))"

definition binary64 :: arith where
  "binary64 =
     \<lparr>fl_add = (\<lambda>a b. dbl (a + b)), fl_sub = (\<lambda>a b. dbl (a - b)),
      fl_mul = (\<lambda>a b. dbl (a * b)), fl_lit = dbl\<rparr>"

text \<open>
  The body of the particle loop for one particle that survives: gravity, then position,
  then drag, each assignment in the order of the source. \<open>200 * dt * 0.6\<close> is
  \<open>(200 * dt) * 0.6\<close>.
\<close>

definition move_particle :: "arith \<Rightarrow> real \<Rightarrow> particle \<Rightarrow> particle" where
  "move_particle ar dt p =
     (let p1 = p\<lparr>p_vy := fl_add ar (p_vy p)
                   (fl_mul ar (fl_mul ar (fl_lit ar 200) dt) (fl_lit ar 0.6))\<rparr>;
          p2 = p1\<lparr>p_x := fl_add ar (p_x p1) (fl_mul ar (p_vx p1) dt)\<rparr>;
          p3 = p2\<lparr>p_y := fl_add ar (p_y p2) (fl_mul ar (p_vy p2) dt)\<rparr>;
          p4 = p3\<lparr>p_vx := fl_mul ar (p_vx p3) (fl_lit ar 0.98)\<rparr>
      in p4\<lparr>p_vy := fl_mul ar (p_vy p4) (fl_lit ar 0.98)\<rparr>)"

text \<open>
  The particle loop \<open>for (i = particles.length - 1; i >= 0; i--)\<close>: the second argument
  is \<open>i + 1\<close>. \<open>p.life -= dt\<close> is a subtraction of doubles; \<open>splice(i, 1)\<close> removes the
  element at index \<open>i\<close>.
\<close>

fun particles_loop :: "arith \<Rightarrow> real \<Rightarrow> nat \<Rightarrow> particle list \<Rightarrow> particle list" where
  "particles_loop ar dt 0 ps = ps"
| "particles_loop ar dt (Suc i) ps =
     (let p = (ps ! i)\<lparr>p_life := fl_sub ar (p_life (ps ! i)) dt\<rparr>
      in if p_life p \<le> 0 then particles_loop ar dt i (take i ps @ drop (Suc i) ps)
         else particles_loop ar dt i (ps[i := move_particle ar dt p]))"

definition update_particles :: "arith \<Rightarrow> real \<Rightarrow> particle list \<Rightarrow> particle list" where
  "update_particles ar dt ps = particles_loop ar dt (length ps) ps"

text \<open>
  One frame: \<open>loop(now)\<close>. \<open>render()\<close> only reads the state, and
  \<open>requestAnimationFrame(loop)\<close> schedules the next frame. A TypeError thrown by a
  step leaves the frame before the particles are updated. The particles are updated with
  the arithmetic of doubles.
\<close>

definition loop :: "real \<Rightarrow> state \<Rightarrow> state option" where
  "loop now s =
     (let dt = min 0.1 ((now - lastT s) / 1000)
      in case loop_steps dt (s\<lparr>lastT := now\<rparr>) of
           None \<Rightarrow> None
         | Some s' \<Rightarrow>
             Some (s'\<lparr>particles := update_particles binary64 dt (particles s')\<rparr>))"

text \<open>The debugging helpers of \<open>window.SnakeGame\<close>.\<close>

definition SnakeGame_start :: "state \<Rightarrow> state" where
  "SnakeGame_start s = startNewGame s"

definition SnakeGame_stop :: "state \<Rightarrow> state" where
  "SnakeGame_stop s = s\<lparr>playing := False, gameOver := True\<rparr>"

definition SnakeGame_getScore :: "state \<Rightarrow> int" where
  "SnakeGame_getScore s = score s"

text \<open>
  The state when the script has run: \<open>t0\<close> is the value of \<open>performance.now()\<close> and
  \<open>rnd\<close> the sequence of values that \<open>Math.random()\<close> will return.
\<close>

definition init :: "real \<Rightarrow> (nat \<Rightarrow> real) \<Rightarrow> state" where
  "init t0 rnd =
     \<lparr>running = True, playing = False, gameOver = False, score = 0, stepProgress = 0,
      snake = [], prevSnake = [], dir = DIRS_right, nextDir = DIRS_right, grow = 0,
      food = None, particles = [], lastT = t0, rng = rnd, rcount = 0\<rparr>"

text \<open>What can happen to the page: a key press, a frame, a call of a debugging helper.\<close>

datatype event = Keydown string | Frame real | DebugStart | DebugStop

fun apply_event :: "event \<Rightarrow> state \<Rightarrow> state option" where
  "apply_event (Keydown code) s = Some (keydown code s)"
| "apply_event (Frame now) s = loop now s"
| "apply_event DebugStart s = Some (SnakeGame_start s)"
| "apply_event DebugStop s = Some (SnakeGame_stop s)"

fun run_events :: "event list \<Rightarrow> state \<Rightarrow> state option" where
  "run_events [] s = Some s"
| "run_events (e # es) s =
     (case apply_event e s of
        None \<Rightarrow> None
      | Some s' \<Rightarrow> run_events es s')"

text \<open>The states the page can be in.\<close>

inductive reachable :: "state \<Rightarrow> bool" where
  reach_init: "reachable (init t0 rnd)"
| reach_event: "reachable s \<Longrightarrow> apply_event e s = Some s' \<Longrightarrow> reachable s'"

section \<open>Notions used in the statements\<close>

text \<open>
  The definitions of this section are not part of the script: they name what the
  statements below talk about, and the concrete states and event lists at which the
  statements are evaluated.
\<close>

text \<open>
  The cell that attempt \<open>k\<close> of \<open>placeFood\<close> samples, when the call starts after
  \<open>c\<close> random draws: each attempt draws two numbers.
\<close>

definition food_candidate :: "(nat \<Rightarrow> real) \<Rightarrow> nat \<Rightarrow> nat \<Rightarrow> cell" where
  "food_candidate rnd c k =
     (\<lfloor>rnd (c + 2 * k) * real_of_int GRID_W\<rfloor>, \<lfloor>rnd (c + 2 * k + 1) * real_of_int GRID_H\<rfloor>)"

text \<open>
  The particle that \<open>spawnEatParticles\<close> pushes at position \<open>(cx, cy)\<close> from the four
  random draws \<open>c\<close> to \<open>c + 3\<close>, and the list of \<open>n\<close> of them from draw \<open>c\<close> on.
\<close>

definition spawned_particle :: "real \<Rightarrow> real \<Rightarrow> (nat \<Rightarrow> real) \<Rightarrow> nat \<Rightarrow> particle" where
  "spawned_particle cx cy rnd c =
     \<lparr>p_x = cx, p_y = cy,
      p_vx = cos (rnd c * pi * 2) * (30 + rnd (c + 1) * 120),
      p_vy = sin (rnd c * pi * 2) * (30 + rnd (c + 1) * 120),
      p_life = 0.6 + rnd (c + 2) * 0.4,
      p_size = 1 + \<lfloor>rnd (c + 3) * 3\<rfloor>\<rparr>"

fun burst :: "real \<Rightarrow> real \<Rightarrow> (nat \<Rightarrow> real) \<Rightarrow> nat \<Rightarrow> nat \<Rightarrow> particle list" where
  "burst cx cy rnd c 0 = []"
| "burst cx cy rnd c (Suc n) = spawned_particle cx cy rnd c # burst cx cy rnd (c + 4) n"

text \<open>
  The new head candidate of \<open>stepSnake\<close>, and its two collision tests.
\<close>

definition new_head :: "state \<Rightarrow> cell" where
  "new_head s = (fst (last (snake s)) + fst (dir s), snd (last (snake s)) + snd (dir s))"

definition hits_wall :: "state \<Rightarrow> bool" where
  "hits_wall s \<longleftrightarrow> fst (new_head s) < 0 \<or> fst (new_head s) \<ge> GRID_W
                   \<or> snd (new_head s) < 0 \<or> snd (new_head s) \<ge> GRID_H"

definition hits_body :: "state \<Rightarrow> bool" where
  "hits_body s \<longleftrightarrow> new_head s \<in> set (snake s)"

text \<open>The pixel coordinate of the centre of a grid column or row.\<close>

definition cell_centre :: "int \<Rightarrow> real" where
  "cell_centre g = (real_of_int g + 0.5) * real_of_int CELL"

text \<open>
  The snake and the growth counter after the push and the decrement or shift of a step
  that does not collide.
\<close>

definition moved_body :: "state \<Rightarrow> cell list" where
  "moved_body s = (if grow s > 0 then snake s @ [new_head s] else tl (snake s @ [new_head s]))"

definition grow_after_move :: "state \<Rightarrow> int" where
  "grow_after_move s = (if grow s > 0 then grow s - 1 else grow s)"

text \<open>The exact reverse of a direction vector.\<close>

definition opposite :: "cell \<Rightarrow> cell" where
  "opposite d = (- fst d, - snd d)"

text \<open>A cell of the grid \<open>[0, GRID_W) \<times> [0, GRID_H)\<close>.\<close>

definition in_grid :: "cell \<Rightarrow> bool" where
  "in_grid c \<longleftrightarrow> 0 \<le> fst c \<and> fst c < GRID_W \<and> 0 \<le> snd c \<and> snd c < GRID_H"

text \<open>\<open>Math.random()\<close> returns numbers in \<open>[0, 1)\<close>.\<close>

definition rng_in_unit :: "(nat \<Rightarrow> real) \<Rightarrow> bool" where
  "rng_in_unit rnd \<longleftrightarrow> (\<forall>n. 0 \<le> rnd n \<and> rnd n < 1)"

text \<open>
  A state whose first sampled food cell \<open>(20, 14)\<close> is the snake's head and whose second
  one \<open>(0, 0)\<close> is free.
\<close>

definition crowded_state :: state where
  "crowded_state =
     \<lparr>running = True, playing = True, gameOver = False, score = 0, stepProgress = 0,
      snake = [(17, 14), (18, 14), (19, 14), (20, 14)],
      prevSnake = [(17, 14), (18, 14), (19, 14), (20, 14)],
      dir = DIRS_right, nextDir = DIRS_right, grow = 0, food = None, particles = [],
      lastT = 0, rng = (\<lambda>n. if n < 2 then 1 / 2 else 0), rcount = 0\<rparr>"

text \<open>The snake that \<open>startNewGame\<close> builds.\<close>

definition start_body :: "cell list" where
  "start_body = [(17, 14), (18, 14), (19, 14), (20, 14)]"

text \<open>The two facts about the snake that every state of the page satisfies.\<close>

definition body_ok :: "state \<Rightarrow> bool" where
  "body_ok s \<longleftrightarrow> distinct (snake s) \<and> (playing s \<longrightarrow> snake s \<noteq> [])"

text \<open>An event that calls \<open>startNewGame\<close> when the game is not being played.\<close>

definition is_start :: "event \<Rightarrow> bool" where
  "is_start e \<longleftrightarrow> e = DebugStart \<or> e = Keydown ''Space''"

text \<open>
  The variables that \<open>stepSnake\<close> and the step block of the main loop can assign, but for
  the particle list: that one is also updated by every frame. A step that spawns
  particles or places food draws random numbers, so it changes \<open>rcount\<close>.
\<close>

definition step_vars ::
  "state \<Rightarrow> bool \<times> bool \<times> int \<times> real \<times> cell list \<times> cell list \<times> cell \<times> int \<times> cell option \<times> nat" where
  "step_vars s =
     (playing s, gameOver s, score s, stepProgress s, snake s, prevSnake s, dir s, grow s,
      food s, rcount s)"



text \<open>What one pass of the particle loop does with one particle.\<close>

definition particle_step :: "arith \<Rightarrow> real \<Rightarrow> particle \<Rightarrow> particle option" where
  "particle_step ar dt p =
     (if fl_sub ar (p_life p) dt \<le> 0 then None
      else Some (move_particle ar dt (p\<lparr>p_life := fl_sub ar (p_life p) dt\<rparr>)))"

text \<open>The particle updates of successive frames, one elapsed time per frame.\<close>

fun integrate_all :: "arith \<Rightarrow> real list \<Rightarrow> particle list \<Rightarrow> particle list" where
  "integrate_all ar [] ps = ps"
| "integrate_all ar (dt # dts) ps = integrate_all ar dts (update_particles ar dt ps)"

text \<open>The lifetime \<open>L\<close> after the subtractions of successive frames.\<close>

fun life_after :: "arith \<Rightarrow> real \<Rightarrow> real list \<Rightarrow> real" where
  "life_after ar L [] = L"
| "life_after ar L (dt # dts) = life_after ar (fl_sub ar L dt) dts"

text \<open>Arithmetic without rounding, for comparison.\<close>

definition exact_arith :: arith where
  "exact_arith =
     \<lparr>fl_add = (\<lambda>a b. a + b), fl_sub = (\<lambda>a b. a - b), fl_mul = (\<lambda>a b. a * b),
      fl_lit = (\<lambda>a. a)\<rparr>"

text \<open>A particle with a quarter of a second to live.\<close>

definition demo_particle :: particle where
  "demo_particle = \<lparr>p_x = 0, p_y = 0, p_vx = 10, p_vy = 0, p_life = 1 / 4, p_size = 1\<rparr>"

text \<open>
  A particle whose lifetime is the double \<open>0.6\<close>, the lifetime that \<open>spawnEatParticles\<close>
  gives when the draw for the lifetime is 0, and the double \<open>0.1\<close>, the elapsed time of a
  frame that comes 100 milliseconds or more after the one before.
\<close>

definition short_lived :: particle where
  "short_lived = \<lparr>p_x = 287, p_y = 203, p_vx = 30, p_vy = 0, p_life = dbl (3 / 5), p_size = 1\<rparr>"

definition clamp_dt :: real where
  "clamp_dt = dbl (1 / 10)"

text \<open>A fresh game whose food lies directly ahead of the head.\<close>

definition fed_state :: state where
  "fed_state =
     \<lparr>running = True, playing = True, gameOver = False, score = 0, stepProgress = 0,
      snake = [(17, 14), (18, 14), (19, 14), (20, 14)],
      prevSnake = [(17, 14), (18, 14), (19, 14), (20, 14)],
      dir = DIRS_right, nextDir = DIRS_right, grow = 0, food = Some (21, 14), particles = [],
      lastT = 0, rng = (\<lambda>n. 0), rcount = 0\<rparr>"

text \<open>
  Values of \<open>Math.random()\<close> that put the first food on \<open>(21, 14)\<close>, straight ahead of the
  new snake, the second food on \<open>(22, 14)\<close>, and the third on \<open>(0, 0)\<close>: draws 0 and 1
  place the first food, draws 2 to 73 make the 18 particles of the first meal, draws 74 and
  75 place the second food, draws 76 to 147 make the particles of the second meal.
\<close>

definition twice_fed_rng :: "nat \<Rightarrow> real" where
  "twice_fed_rng n =
     (if n = 0 then 17 / 32 else if n = 74 then 9 / 16 else if n < 148 then 1 / 2 else 0)"

text \<open>The game that \<open>startNewGame\<close> sets up with these values.\<close>

definition twice_fed_start :: state where
  "twice_fed_start =
     \<lparr>running = True, playing = True, gameOver = False, score = 0, stepProgress = 0,
      snake = [(17, 14), (18, 14), (19, 14), (20, 14)],
      prevSnake = [(17, 14), (18, 14), (19, 14), (20, 14)],
      dir = DIRS_right, nextDir = DIRS_right, grow = 0, food = Some (21, 14), particles = [],
      lastT = 0, rng = twice_fed_rng, rcount = 2\<rparr>"

text \<open>A step from the state neither collides nor eats.\<close>

definition quiet :: "state \<Rightarrow> bool" where
  "quiet s \<longleftrightarrow>
     snake s \<noteq> [] \<and> \<not> hits_wall s \<and> \<not> hits_body s \<and> food s \<noteq> Some (new_head s)"

text \<open>A game just after a meal: the growth counter is 2 and the food is far away.\<close>

definition growing_state :: state where
  "growing_state =
     \<lparr>running = True, playing = True, gameOver = False, score = 10, stepProgress = 0,
      snake = [(18, 14), (19, 14), (20, 14), (21, 14)],
      prevSnake = [(17, 14), (18, 14), (19, 14), (20, 14)],
      dir = DIRS_right, nextDir = DIRS_right, grow = 2, food = Some (0, 0), particles = [],
      lastT = 0, rng = (\<lambda>n. 0), rcount = 0\<rparr>"

text \<open>
  The page after the script has run at time 0 and Space has been pressed, when every
  value of \<open>Math.random()\<close> is 0: the food is on \<open>(0, 0)\<close>.
\<close>

definition fresh_game :: state where
  "fresh_game =
     \<lparr>running = True, playing = True, gameOver = False, score = 0, stepProgress = 0,
      snake = [(17, 14), (18, 14), (19, 14), (20, 14)],
      prevSnake = [(17, 14), (18, 14), (19, 14), (20, 14)],
      dir = DIRS_right, nextDir = DIRS_right, grow = 0, food = Some (0, 0), particles = [],
      lastT = 0, rng = (\<lambda>n. 0), rcount = 2\<rparr>"

text \<open>Start, two frames (one step to the right), a turn upwards, one frame (one step up).\<close>

definition turn_events :: "event list" where
  "turn_events = [Keydown ''Space'', Frame 100, Frame 200, Keydown ''ArrowUp'', Frame 300]"

definition turned_state :: state where
  "turned_state =
     fresh_game\<lparr>stepProgress := 1 / 4,
       snake := [(19, 14), (20, 14), (21, 14), (21, 13)],
       prevSnake := [(18, 14), (19, 14), (20, 14), (21, 14)],
       dir := DIRS_up, nextDir := DIRS_up, lastT := 300\<rparr>"

text \<open>
  A game in which the committed direction has become left while the snake still lies as
  \<open>startNewGame\<close> built it, heading right: the next step runs the head into the body.
\<close>

definition reversing_state :: state where
  "reversing_state =
     fresh_game\<lparr>stepProgress := 37 / 50, dir := DIRS_left, nextDir := DIRS_left,
       lastT := 232\<rparr>"

text \<open>
  Start, then Up and Left pressed within the first 32 milliseconds, each followed by a
  frame: too early for any step, since a step is due every 133 milliseconds.
\<close>

definition double_turn :: "event list" where
  "double_turn =
     [Keydown ''Space'', Keydown ''ArrowUp'', Frame 16, Keydown ''ArrowLeft'', Frame 32]"

text \<open>
  Values of \<open>Math.random()\<close> that put the first food on \<open>(2, 1)\<close> and the second on
  \<open>(1, 1)\<close>, and that make every later sample the cell \<open>(2, 1)\<close>.
\<close>

definition cornered_rng :: "nat \<Rightarrow> real" where
  "cornered_rng n = (if n = 74 then 1 / 32 else 1 / 16)"

text \<open>
  Start and Up; 18 frames 100 milliseconds apart, which make 13 steps up to the row 1; Left;
  24 more frames, which make 18 steps to the left along the row 1, the last of them onto the
  first food.
\<close>

definition cornered_run :: "event list" where
  "cornered_run =
     [Keydown ''Space'', Keydown ''ArrowUp'',
      Frame 100, Frame 200, Frame 300, Frame 400, Frame 500, Frame 600, Frame 700,
      Frame 800, Frame 900, Frame 1000, Frame 1100, Frame 1200, Frame 1300, Frame 1400,
      Frame 1500, Frame 1600, Frame 1700, Frame 1800,
      Keydown ''ArrowLeft'',
      Frame 1900, Frame 2000, Frame 2100, Frame 2200, Frame 2300, Frame 2400, Frame 2500,
      Frame 2600, Frame 2700, Frame 2800, Frame 2900, Frame 3000, Frame 3100, Frame 3200,
      Frame 3300, Frame 3400, Frame 3500, Frame 3600, Frame 3700, Frame 3800, Frame 3900,
      Frame 4000, Frame 4100, Frame 4200]"

text \<open>
  The state after \<open>cornered_run\<close>: the snake has just eaten, its growth counter is 2, its
  head is on \<open>(2, 1)\<close> heading left, and the food is on \<open>(1, 1)\<close>, straight ahead.
\<close>

definition cornered_state :: state where
  "cornered_state =
     \<lparr>running = True, playing = True, gameOver = False, score = 10, stepProgress = 1 / 2,
      snake = [(5, 1), (4, 1), (3, 1), (2, 1)],
      prevSnake = [(6, 1), (5, 1), (4, 1), (3, 1)],
      dir = DIRS_left, nextDir = DIRS_left, grow = 2, food = Some (1, 1),
      particles = update_particles binary64 (1 / 10) (burst 35 21 cornered_rng 2 18),
      lastT = 4200, rng = cornered_rng, rcount = 76\<rparr>"

section \<open>Auxiliary facts\<close>

lemma fst_random [simp]: "fst (random s) = rng s (rcount s)"
  by (simp add: random_def)

lemma snd_random [simp]: "snd (random s) = s\<lparr>rcount := Suc (rcount s)\<rparr>"
  by (simp add: random_def)

lemma occupied_iff [simp]: "occupied body fx fy \<longleftrightarrow> (fx, fy) \<in> set body"
  by (force simp: occupied_def list_ex_iff)

declare placeFood_loop.simps [simp del]

lemma food_candidate_shift:
  "food_candidate rnd (Suc (Suc c)) j = food_candidate rnd c (Suc j)"
  by (simp add: food_candidate_def)

lemma placeFood_loop_free:
  "k + t < 1000 \<Longrightarrow> \<forall>j<k. food_candidate (rng s) (rcount s) j \<in> set (snake s) \<Longrightarrow>
   food_candidate (rng s) (rcount s) k \<notin> set (snake s) \<Longrightarrow>
   placeFood_loop t s = s\<lparr>food := Some (food_candidate (rng s) (rcount s) k), rcount := rcount s + 2 * (k + 1)\<rparr>"
proof (induction k arbitrary: t s)
  case 0
  then show ?case
    by (subst placeFood_loop.simps) (simp add: food_candidate_def Let_def)
next
  case (Suc k)
  let ?s2 = "s\<lparr>rcount := Suc (Suc (rcount s))\<rparr>"
  have shift: "food_candidate (rng ?s2) (rcount ?s2) j = food_candidate (rng s) (rcount s) (Suc j)" for j
    by (simp add: food_candidate_def)
  have c0: "food_candidate (rng s) (rcount s) 0 \<in> set (snake s)"
    using Suc.prems(2) by blast
  have "placeFood_loop t s = placeFood_loop (Suc t) ?s2"
    using c0 Suc.prems(1) by (subst placeFood_loop.simps) (simp add: food_candidate_def Let_def)
  also have "\<dots> = ?s2\<lparr>food := Some (food_candidate (rng ?s2) (rcount ?s2) k), rcount := rcount ?s2 + 2 * (k + 1)\<rparr>"
  proof (rule Suc.IH)
    show "k + Suc t < 1000" using Suc.prems(1) by simp
    show "\<forall>j<k. food_candidate (rng ?s2) (rcount ?s2) j \<in> set (snake ?s2)"
      using Suc.prems(2) by (auto simp: food_candidate_shift)
    show "food_candidate (rng ?s2) (rcount ?s2) k \<notin> set (snake ?s2)"
      using Suc.prems(3) by (simp add: food_candidate_shift)
  qed
  finally show ?case by (simp add: food_candidate_shift)
qed

lemma placeFood_loop_exhausted:
  "t \<le> 1000 \<Longrightarrow> \<forall>j<1000 - t. food_candidate (rng s) (rcount s) j \<in> set (snake s) \<Longrightarrow>
   placeFood_loop t s = s\<lparr>food := Some (1, 1), rcount := rcount s + 2 * (1000 - t)\<rparr>"
proof (induction "1000 - t" arbitrary: t s)
  case 0
  then show ?case
    by (subst placeFood_loop.simps) simp
next
  case (Suc n)
  let ?s2 = "s\<lparr>rcount := Suc (Suc (rcount s))\<rparr>"
  have shift: "food_candidate (rng ?s2) (rcount ?s2) j = food_candidate (rng s) (rcount s) (Suc j)" for j
    by (simp add: food_candidate_def)
  have lt: "t < 1000" using Suc.hyps(2) by simp
  have c0: "food_candidate (rng s) (rcount s) 0 \<in> set (snake s)"
    using Suc.prems(2) lt by simp
  have "placeFood_loop t s = placeFood_loop (Suc t) ?s2"
    using c0 lt by (subst placeFood_loop.simps) (simp add: food_candidate_def Let_def)
  also have "\<dots> = ?s2\<lparr>food := Some (1, 1), rcount := rcount ?s2 + 2 * (1000 - Suc t)\<rparr>"
  proof (rule Suc.hyps(1))
    show "n = 1000 - Suc t" using Suc.hyps(2) by simp
    show "Suc t \<le> 1000" using lt by simp
    show "\<forall>j<1000 - Suc t. food_candidate (rng ?s2) (rcount ?s2) j \<in> set (snake ?s2)"
      using Suc.prems(2) by (auto simp: food_candidate_shift)
  qed
  finally show ?case using lt by simp
qed

lemma map_fst_snd_id [simp]: "map (\<lambda>c. (fst c, snd c)) xs = xs"
  by (induction xs) simp_all

lemma length_burst [simp]: "length (burst cx cy rnd c n) = n"
  by (induction n arbitrary: c) simp_all

lemma burst_origin: "p \<in> set (burst cx cy rnd c n) \<Longrightarrow> p_x p = cx \<and> p_y p = cy"
  by (induction n arbitrary: c) (auto simp: spawned_particle_def)

lemma spawn_loop_eq:
  "spawn_loop cx cy n s =
     s\<lparr>particles := particles s @ burst cx cy (rng s) (rcount s) n,
       rcount := rcount s + 4 * n\<rparr>"
proof (induction n arbitrary: s)
  case 0
  then show ?case by simp
next
  case (Suc n)
  have e3: "rcount s + 3 = Suc (Suc (Suc (rcount s)))"
    and e4: "rcount s + 4 = Suc (Suc (Suc (Suc (rcount s))))"
    and e5: "rcount s + (4 + 4 * n) = Suc (Suc (Suc (Suc (rcount s + 4 * n))))"
    by simp_all
  show ?case
    apply (subst spawn_loop.simps)
    apply (subst Suc.IH)
    apply (simp only: Let_def fst_random snd_random)
    apply (simp add: spawned_particle_def e3 e4 e5)
    done
qed

lemma triggerGameOver_eq:
  assumes "snake s \<noteq> []"
  shows "triggerGameOver s =
     Some (s\<lparr>playing := False, gameOver := True,
             particles := particles s @
               burst (cell_centre (fst (last (snake s)))) (cell_centre (snd (last (snake s))))
                 (rng s) (rcount s) 36,
             rcount := rcount s + 144\<rparr>)"
  using assms
  by (cases s) (simp add: triggerGameOver_def Let_def spawnDeathParticles_def
        spawnEatParticles_def spawn_loop_eq cell_centre_def)

lemma stepSnake_collision:
  assumes "snake s \<noteq> []" and "hits_wall s \<or> hits_body s"
  shows "stepSnake s =
     Some (s\<lparr>playing := False, gameOver := True, prevSnake := snake s,
             particles := particles s @
               burst (cell_centre (fst (last (snake s)))) (cell_centre (snd (last (snake s))))
                 (rng s) (rcount s) 36,
             rcount := rcount s + 144\<rparr>)"
proof -
  let ?s = "s\<lparr>prevSnake := snake s\<rparr>"
  have "stepSnake s = triggerGameOver ?s"
    using assms
    by (auto simp add: stepSnake_def Let_def new_head_def hits_wall_def hits_body_def)
  also have "\<dots> = Some (s\<lparr>playing := False, gameOver := True, prevSnake := snake s,
             particles := particles s @
               burst (cell_centre (fst (last (snake s)))) (cell_centre (snd (last (snake s))))
                 (rng s) (rcount s) 36,
             rcount := rcount s + 144\<rparr>)"
    using assms(1) by (subst triggerGameOver_eq) (simp, cases s, simp)
  finally show ?thesis .
qed

lemma stepSnake_move:
  assumes "snake s \<noteq> []" and "\<not> hits_wall s" and "\<not> hits_body s"
    and "food s \<noteq> Some (new_head s)"
  shows "stepSnake s =
     Some (s\<lparr>snake := moved_body s, prevSnake := snake s, grow := grow_after_move s\<rparr>)"
proof (cases "food s")
  case None
  then show ?thesis
    using assms
    by (cases s) (simp add: stepSnake_def Let_def new_head_def hits_wall_def hits_body_def
      moved_body_def grow_after_move_def)
next
  case (Some f)
  then have "\<not> (fst (new_head s) = fst f \<and> snd (new_head s) = snd f)"
    using assms(4) by (auto simp: prod_eq_iff)
  then show ?thesis
    using assms Some
    by (cases s, cases f) (auto simp add: stepSnake_def Let_def new_head_def hits_wall_def
      hits_body_def moved_body_def grow_after_move_def)
qed

lemma stepSnake_eat:
  assumes "snake s \<noteq> []" and "\<not> hits_wall s" and "\<not> hits_body s"
    and "food s = Some (new_head s)"
  shows "stepSnake s =
     Some (placeFood
       (s\<lparr>score := score s + 10, snake := moved_body s, prevSnake := snake s,
          grow := grow_after_move s + 2,
          particles := particles s @
            burst (cell_centre (fst (new_head s))) (cell_centre (snd (new_head s)))
              (rng s) (rcount s) 18,
          rcount := rcount s + 72\<rparr>))"
  using assms
  by (cases s) (simp add: stepSnake_def Let_def new_head_def hits_wall_def hits_body_def
      moved_body_def grow_after_move_def spawnEatParticles_def spawn_loop_eq cell_centre_def)

lemma placeFood_cases:
  obtains (free) k where "k < 1000"
      and "\<forall>j<k. food_candidate (rng s) (rcount s) j \<in> set (snake s)"
      and "food_candidate (rng s) (rcount s) k \<notin> set (snake s)"
      and "placeFood s = s\<lparr>food := Some (food_candidate (rng s) (rcount s) k),
                              rcount := rcount s + 2 * (k + 1)\<rparr>"
  | (fallback) "\<forall>j<1000. food_candidate (rng s) (rcount s) j \<in> set (snake s)"
      and "placeFood s = s\<lparr>food := Some (1, 1), rcount := rcount s + 2000\<rparr>"
proof (cases "\<exists>k<1000. food_candidate (rng s) (rcount s) k \<notin> set (snake s)")
  case True
  define P where "P k \<longleftrightarrow> k < 1000 \<and> food_candidate (rng s) (rcount s) k \<notin> set (snake s)" for k
  from True have ex: "\<exists>k. P k" by (auto simp: P_def)
  define k where "k = (LEAST k. P k)"
  have Pk: "P k" unfolding k_def using ex by (auto intro: LeastI_ex)
  have least: "\<not> P j" if "j < k" for j
    using that unfolding k_def by (rule not_less_Least)
  have lt: "k < 1000" using Pk by (simp add: P_def)
  have before: "\<forall>j<k. food_candidate (rng s) (rcount s) j \<in> set (snake s)"
    using least lt by (auto simp: P_def)
  have free_k: "food_candidate (rng s) (rcount s) k \<notin> set (snake s)"
    using Pk by (simp add: P_def)
  have "placeFood s = s\<lparr>food := Some (food_candidate (rng s) (rcount s) k),
                              rcount := rcount s + 2 * (k + 1)\<rparr>"
    unfolding placeFood_def using lt before free_k by (intro placeFood_loop_free) simp_all
  with lt before free_k show ?thesis by (rule free)
next
  case False
  then have all: "\<forall>j<1000. food_candidate (rng s) (rcount s) j \<in> set (snake s)" by auto
  have "placeFood s = s\<lparr>food := Some (1, 1), rcount := rcount s + 2000\<rparr>"
    unfolding placeFood_def using placeFood_loop_exhausted [of 0 s] all by simp
  with all show ?thesis by (rule fallback)
qed

lemma placeFood_shape: "\<exists>c k. placeFood s = s\<lparr>food := Some c, rcount := rcount s + k\<rparr>"
  by (cases s rule: placeFood_cases) blast+

lemma food_candidate_in_grid:
  assumes "rng_in_unit rnd"
  shows "in_grid (food_candidate rnd c k)"
proof -
  have u: "0 \<le> rnd n" "rnd n < 1" for n
    using assms by (simp_all add: rng_in_unit_def)
  have "0 \<le> rnd n * 40" "rnd n * 40 < 40" "0 \<le> rnd n * 28" "rnd n * 28 < 28" for n
    using u [of n] by simp_all
  then have "0 \<le> \<lfloor>rnd n * 40\<rfloor>" "\<lfloor>rnd n * 40\<rfloor> < 40" "0 \<le> \<lfloor>rnd n * 28\<rfloor>" "\<lfloor>rnd n * 28\<rfloor> < 28" for n
    by (simp_all add: floor_less_iff)
  then show ?thesis
    by (simp add: in_grid_def food_candidate_def GRID_W_def GRID_H_def)
qed

lemma distinct_moved_body:
  assumes "distinct (snake s)" and "\<not> hits_body s"
  shows "distinct (moved_body s)"
proof -
  have "distinct (snake s @ [new_head s])"
    using assms by (simp add: hits_body_def)
  then show ?thesis
    by (simp add: moved_body_def distinct_tl del: distinct_append)
qed

lemma moved_body_nonempty: "snake s \<noteq> [] \<Longrightarrow> moved_body s \<noteq> []"
  by (cases "snake s") (simp_all add: moved_body_def)

lemma stepSnake_cases:
  assumes "snake s \<noteq> []"
  obtains (collision) "hits_wall s \<or> hits_body s"
      and "stepSnake s =
        Some (s\<lparr>playing := False, gameOver := True, prevSnake := snake s,
             particles := particles s @
               burst (cell_centre (fst (last (snake s)))) (cell_centre (snd (last (snake s))))
                 (rng s) (rcount s) 36,
             rcount := rcount s + 144\<rparr>)"
  | (move) "\<not> hits_wall s" and "\<not> hits_body s" and "food s \<noteq> Some (new_head s)"
      and "stepSnake s =
        Some (s\<lparr>snake := moved_body s, prevSnake := snake s, grow := grow_after_move s\<rparr>)"
  | (eat) c k where "\<not> hits_wall s" and "\<not> hits_body s" and "food s = Some (new_head s)"
      and "stepSnake s =
        Some (s\<lparr>score := score s + 10, snake := moved_body s, prevSnake := snake s,
          grow := grow_after_move s + 2, food := Some c,
          particles := particles s @
            burst (cell_centre (fst (new_head s))) (cell_centre (snd (new_head s)))
              (rng s) (rcount s) 18,
          rcount := rcount s + 72 + k\<rparr>)"
proof (cases "hits_wall s \<or> hits_body s")
  case True
  with assms show ?thesis by (intro collision stepSnake_collision)
next
  case False
  then have nw: "\<not> hits_wall s" and nb: "\<not> hits_body s" by simp_all
  show ?thesis
  proof (cases "food s = Some (new_head s)")
    case True
    let ?t = "s\<lparr>score := score s + 10, snake := moved_body s, prevSnake := snake s,
          grow := grow_after_move s + 2,
          particles := particles s @
            burst (cell_centre (fst (new_head s))) (cell_centre (snd (new_head s)))
              (rng s) (rcount s) 18,
          rcount := rcount s + 72\<rparr>"
    obtain c k where "placeFood ?t = ?t\<lparr>food := Some c, rcount := rcount ?t + k\<rparr>"
      using placeFood_shape [of ?t] by blast
    then have "stepSnake s = Some (s\<lparr>score := score s + 10, snake := moved_body s,
          prevSnake := snake s, grow := grow_after_move s + 2, food := Some c,
          particles := particles s @
            burst (cell_centre (fst (new_head s))) (cell_centre (snd (new_head s)))
              (rng s) (rcount s) 18,
          rcount := rcount s + 72 + k\<rparr>)"
      using stepSnake_eat [OF assms nw nb True] by (cases s) simp
    with nw nb True show ?thesis by (rule eat)
  next
    case False
    with assms nw nb show ?thesis by (intro move stepSnake_move)
  qed
qed

lemma stepSnake_total: "snake s \<noteq> [] \<Longrightarrow> \<exists>s'. stepSnake s = Some s'"
  by (erule stepSnake_cases) blast+

lemma stepSnake_None: "stepSnake s = None \<longleftrightarrow> snake s = []"
proof
  assume "stepSnake s = None"
  then show "snake s = []" using stepSnake_total [of s] by auto
next
  assume "snake s = []"
  then show "stepSnake s = None" by (simp add: stepSnake_def)
qed


lemma stepSnake_body:
  assumes "stepSnake s = Some s'"
  shows "snake s' \<noteq> [] \<and> (distinct (snake s) \<longrightarrow> distinct (snake s'))"
proof -
  have ne: "snake s \<noteq> []" using assms stepSnake_None [of s] by auto
  from ne show ?thesis
    by (cases rule: stepSnake_cases)
      (use assms ne in \<open>auto simp: distinct_moved_body moved_body_nonempty\<close>)
qed

lemma run_steps_total:
  "playing s \<longrightarrow> snake s \<noteq> [] \<Longrightarrow> \<exists>s'. run_steps n s = Some s'"
proof (induction n arbitrary: s)
  case 0
  then show ?case by simp
next
  case (Suc n)
  show ?case
  proof (cases "playing s")
    case False
    then show ?thesis by simp
  next
    case True
    with Suc.prems obtain s1 where s1: "stepSnake s = Some s1"
      using stepSnake_total by blast
    then have "snake s1 \<noteq> []" using stepSnake_body by blast
    then obtain s' where "run_steps n s1 = Some s'" using Suc.IH by blast
    with True s1 show ?thesis by simp
  qed
qed


lemma run_steps_body:
  "run_steps n s = Some s' \<Longrightarrow> distinct (snake s) \<Longrightarrow> playing s \<longrightarrow> snake s \<noteq> [] \<Longrightarrow>
     distinct (snake s') \<and> (playing s' \<longrightarrow> snake s' \<noteq> [])"
proof (induction n arbitrary: s)
  case 0
  then show ?case by simp
next
  case (Suc n)
  show ?case
  proof (cases "playing s")
    case False
    with Suc.prems show ?thesis by simp
  next
    case True
    with Suc.prems obtain s1 where s1: "stepSnake s = Some s1" and r: "run_steps n s1 = Some s'"
      by (auto split: option.splits)
    from stepSnake_body [OF s1] Suc.prems(2) have "distinct (snake s1)" "snake s1 \<noteq> []"
      by simp_all
    then show ?thesis using Suc.IH [OF r] by simp
  qed
qed

lemma startNewGame_shape:
  "\<exists>c k. startNewGame s =
     s\<lparr>playing := True, gameOver := False, score := 0, stepProgress := 0,
       snake := start_body, prevSnake := start_body, dir := DIRS_right, nextDir := DIRS_right,
       grow := 0, food := Some c, rcount := rcount s + k\<rparr>"
proof -
  let ?t = "s\<lparr>playing := True, gameOver := False, score := 0, stepProgress := 0,
       snake := start_body, prevSnake := start_body, dir := DIRS_right, nextDir := DIRS_right,
       grow := 0\<rparr>"
  have "startNewGame s = placeFood ?t"
    by (cases s) (simp add: startNewGame_def Let_def GRID_W_def GRID_H_def start_body_def)
  moreover obtain c k where "placeFood ?t = ?t\<lparr>food := Some c, rcount := rcount ?t + k\<rparr>"
    using placeFood_shape [of ?t] by blast
  ultimately have "startNewGame s =
     s\<lparr>playing := True, gameOver := False, score := 0, stepProgress := 0,
       snake := start_body, prevSnake := start_body, dir := DIRS_right, nextDir := DIRS_right,
       grow := 0, food := Some c, rcount := rcount s + k\<rparr>"
    by simp
  then show ?thesis by blast
qed

lemma startNewGame_body_ok: "body_ok (startNewGame s)"
proof -
  obtain c k where "startNewGame s =
     s\<lparr>playing := True, gameOver := False, score := 0, stepProgress := 0,
       snake := start_body, prevSnake := start_body, dir := DIRS_right, nextDir := DIRS_right,
       grow := 0, food := Some c, rcount := rcount s + k\<rparr>"
    using startNewGame_shape by blast
  then show ?thesis by (simp add: body_ok_def start_body_def)
qed

lemma queueDirection_body_ok: "body_ok (queueDirection d s) = body_ok s"
  by (simp add: queueDirection_def body_ok_def)

lemma keydown_body_ok: "body_ok s \<Longrightarrow> body_ok (keydown code s)"
  by (simp add: keydown_def Let_def queueDirection_body_ok startNewGame_body_ok
      split: option.splits)

lemma loop_steps_not_playing: "\<not> playing s \<Longrightarrow> loop_steps dt s = Some s"
  by (simp add: loop_steps_def)

lemma loop_steps_total:
  assumes "playing s \<longrightarrow> snake s \<noteq> []"
  shows "\<exists>s'. loop_steps dt s = Some s'"
proof (cases "playing s")
  case False
  then show ?thesis by (simp add: loop_steps_def)
next
  case True
  with assms have ne: "snake s \<noteq> []" by simp
  show ?thesis
    unfolding loop_steps_def Let_def using True ne
    by (auto intro!: run_steps_total)
qed

lemma loop_steps_body_ok:
  assumes "loop_steps dt s = Some s'" and "body_ok s"
  shows "body_ok s'"
proof (cases "playing s")
  case False
  with assms show ?thesis by (simp add: loop_steps_def)
next
  case True
  define s2 where "s2 = (if \<not> gameOver s then s\<lparr>dir := nextDir s\<rparr> else s)
      \<lparr>stepProgress := stepProgress s + dt * STEPS_PER_SECOND\<rparr>"
  have s2: "snake s2 = snake s" "playing s2 = playing s"
    by (simp_all add: s2_def)
  show ?thesis
  proof (cases "stepProgress s2 \<ge> 1")
    case False
    then have "loop_steps dt s = Some s2"
      using True by (simp add: loop_steps_def Let_def s2_def)
    with assms s2 show ?thesis by (simp add: body_ok_def)
  next
    case ge: True
    let ?s3 = "s2\<lparr>stepProgress := stepProgress s2 - real_of_int \<lfloor>stepProgress s2\<rfloor>\<rparr>"
    have "loop_steps dt s = run_steps (nat \<lfloor>stepProgress s2\<rfloor>) ?s3"
      using True ge by (simp add: loop_steps_def Let_def s2_def)
    with assms(1) have r: "run_steps (nat \<lfloor>stepProgress s2\<rfloor>) ?s3 = Some s'" by simp
    from run_steps_body [OF r] assms(2) s2 show ?thesis
      by (simp add: body_ok_def)
  qed
qed

lemma loop_total:
  assumes "playing s \<longrightarrow> snake s \<noteq> []"
  shows "\<exists>s'. loop now s = Some s'"
proof -
  obtain s1 where "loop_steps (min 0.1 ((now - lastT s) / 1000)) (s\<lparr>lastT := now\<rparr>) = Some s1"
    using loop_steps_total [of "s\<lparr>lastT := now\<rparr>"] assms by auto
  then show ?thesis by (simp add: loop_def Let_def)
qed

lemma loop_body_ok:
  assumes "loop now s = Some s'" and "body_ok s"
  shows "body_ok s'"
proof -
  from assms(1) obtain s1
    where s1: "loop_steps (min 0.1 ((now - lastT s) / 1000)) (s\<lparr>lastT := now\<rparr>) = Some s1"
      and s': "s' = s1\<lparr>particles := update_particles binary64 (min 0.1 ((now - lastT s) / 1000)) (particles s1)\<rparr>"
    by (auto simp: loop_def Let_def split: option.splits)
  have "body_ok (s\<lparr>lastT := now\<rparr>)" using assms(2) by (simp add: body_ok_def)
  from loop_steps_body_ok [OF s1 this] show ?thesis by (simp add: s' body_ok_def)
qed

lemma apply_event_body_ok:
  assumes "apply_event e s = Some s'" and "body_ok s"
  shows "body_ok s'"
proof (cases e)
  case (Keydown code)
  with assms show ?thesis using keydown_body_ok by auto
next
  case (Frame now)
  with assms show ?thesis using loop_body_ok by auto
next
  case DebugStart
  with assms show ?thesis using startNewGame_body_ok by (auto simp: SnakeGame_start_def)
next
  case DebugStop
  with assms show ?thesis by (auto simp: SnakeGame_stop_def body_ok_def)
qed

lemma apply_event_total:
  assumes "body_ok s"
  shows "\<exists>s'. apply_event e s = Some s'"
proof (cases e)
  case (Frame now)
  then show ?thesis using loop_total [of s now] assms by (simp add: body_ok_def)
qed simp_all

lemma reachable_body_ok: "reachable s \<Longrightarrow> body_ok s"
proof (induction rule: reachable.induct)
  case (reach_init t0 rnd)
  show ?case by (simp add: body_ok_def init_def)
next
  case (reach_event s e s')
  then show ?case using apply_event_body_ok by blast
qed

lemma placeFood_first_free:
  assumes "food_candidate (rng s) (rcount s) 0 \<notin> set (snake s)"
  shows "placeFood s = s\<lparr>food := Some (food_candidate (rng s) (rcount s) 0),
                          rcount := rcount s + 2\<rparr>"
  unfolding placeFood_def using placeFood_loop_free [of 0 0 s] assms by simp

lemma run_events_reachable:
  "run_events es s = Some s' \<Longrightarrow> reachable s \<Longrightarrow> reachable s'"
proof (induction es arbitrary: s)
  case Nil
  then show ?case by simp
next
  case (Cons e es)
  then obtain s1 where "apply_event e s = Some s1" and "run_events es s1 = Some s'"
    by (auto split: option.splits)
  with Cons show ?case using reach_event by blast
qed

lemma run_events_append:
  "run_events (es @ fs) s = (case run_events es s of None \<Rightarrow> None | Some s' \<Rightarrow> run_events fs s')"
  by (induction es arbitrary: s) (simp_all split: option.splits)

lemma loop_steps_no_step:
  assumes "playing s" and "\<not> gameOver s"
    and "stepProgress s + dt * STEPS_PER_SECOND < 1"
  shows "loop_steps dt s =
    Some (s\<lparr>stepProgress := stepProgress s + dt * STEPS_PER_SECOND, dir := nextDir s\<rparr>)"
  using assms by (cases s) (simp add: loop_steps_def Let_def)

lemma loop_steps_one_step:
  assumes "playing s" and "\<not> gameOver s"
    and "1 \<le> stepProgress s + dt * STEPS_PER_SECOND"
    and "stepProgress s + dt * STEPS_PER_SECOND < 2"
  shows "loop_steps dt s =
    stepSnake (s\<lparr>stepProgress := stepProgress s + dt * STEPS_PER_SECOND - 1, dir := nextDir s\<rparr>)"
proof -
  have "\<lfloor>stepProgress s + dt * STEPS_PER_SECOND\<rfloor> = 1"
    using assms(3,4) by linarith
  then show ?thesis
    using assms by (cases s) (simp add: loop_steps_def Let_def split: option.splits)
qed

lemma loop_eq:
  "loop now s =
     map_option (\<lambda>s'. s'\<lparr>particles := update_particles binary64 (min 0.1 ((now - lastT s) / 1000)) (particles s')\<rparr>)
       (loop_steps (min 0.1 ((now - lastT s) / 1000)) (s\<lparr>lastT := now\<rparr>))"
  by (simp add: loop_def Let_def split: option.splits)

lemma update_particles_Nil [simp]: "update_particles ar dt [] = []"
  by (simp add: update_particles_def)

lemma run_steps_not_playing: "\<not> playing s \<Longrightarrow> run_steps n s = Some s"
  by (cases n) simp_all

lemma keydown_frozen:
  assumes "\<not> is_start (Keydown code)"
  shows "step_vars (keydown code s) = step_vars s"
proof -
  have "code \<noteq> ''Space''" using assms by (simp add: is_start_def)
  then show ?thesis
    by (simp add: keydown_def queueDirection_def step_vars_def split: option.splits)
qed

lemma loop_frozen:
  assumes "\<not> playing s"
  shows "\<exists>s'. loop now s = Some s' \<and> step_vars s' = step_vars s"
  using assms by (simp add: loop_eq loop_steps_not_playing step_vars_def)

lemma apply_event_frozen:
  assumes "\<not> playing s" and "gameOver s" and "\<not> is_start e"
  shows "\<exists>s'. apply_event e s = Some s' \<and> step_vars s' = step_vars s"
proof (cases e)
  case (Keydown code)
  with assms(3) show ?thesis using keydown_frozen by simp
next
  case (Frame now)
  with assms(1) show ?thesis using loop_frozen by simp
next
  case DebugStart
  with assms(3) show ?thesis by (simp add: is_start_def)
next
  case DebugStop
  with assms(1,2) show ?thesis by (simp add: SnakeGame_stop_def step_vars_def)
qed

lemma run_events_frozen:
  "\<not> playing s \<Longrightarrow> gameOver s \<Longrightarrow> list_all (\<lambda>e. \<not> is_start e) es \<Longrightarrow>
     \<exists>s'. run_events es s = Some s' \<and> step_vars s' = step_vars s"
proof (induction es arbitrary: s)
  case Nil
  then show ?case by simp
next
  case (Cons e es)
  from Cons.prems obtain s1 where s1: "apply_event e s = Some s1" "step_vars s1 = step_vars s"
    using apply_event_frozen [of s e] by auto
  then have "\<not> playing s1" "gameOver s1"
    using Cons.prems(1,2) by (simp_all add: step_vars_def)
  then obtain s' where "run_events es s1 = Some s'" "step_vars s' = step_vars s1"
    using Cons.IH [of s1] Cons.prems(3) by auto
  with s1 show ?case by simp
qed







lemma placeFood_fallback:
  assumes "\<forall>j<1000. food_candidate (rng s) (rcount s) j \<in> set (snake s)"
  shows "placeFood s = s\<lparr>food := Some (1, 1), rcount := rcount s + 2000\<rparr>"
  unfolding placeFood_def using placeFood_loop_exhausted [of 0 s] assms by simp

lemma twice_fed_start_eq: "startNewGame (init 0 twice_fed_rng) = twice_fed_start"
  apply (simp add: startNewGame_def Let_def GRID_W_def GRID_H_def init_def)
  apply (subst placeFood_first_free)
   apply (simp add: food_candidate_def twice_fed_rng_def GRID_W_def GRID_H_def)
  apply (simp add: food_candidate_def twice_fed_rng_def GRID_W_def GRID_H_def twice_fed_start_def)
  done

lemma stepSnake_eat_first_free:
  assumes "snake s \<noteq> []" and "\<not> hits_wall s" and "\<not> hits_body s"
    and "food s = Some (new_head s)"
    and "food_candidate (rng s) (rcount s + 72) 0 \<notin> set (moved_body s)"
  shows "stepSnake s =
     Some (s\<lparr>score := score s + 10, snake := moved_body s, prevSnake := snake s,
          grow := grow_after_move s + 2,
          food := Some (food_candidate (rng s) (rcount s + 72) 0),
          particles := particles s @
            burst (cell_centre (fst (new_head s))) (cell_centre (snd (new_head s)))
              (rng s) (rcount s) 18,
          rcount := rcount s + 74\<rparr>)"
  unfolding stepSnake_eat [OF assms(1-4)]
  using assms(5) by (subst placeFood_first_free) simp_all

lemmas eval_defs = new_head_def hits_wall_def hits_body_def moved_body_def grow_after_move_def
  cell_centre_def food_candidate_def CELL_def GRID_W_def GRID_H_def
  DIRS_left_def DIRS_right_def DIRS_up_def DIRS_down_def

lemma twice_fed_steps:
  "stepSnake twice_fed_start =
     Some (twice_fed_start\<lparr>score := 10, snake := [(18, 14), (19, 14), (20, 14), (21, 14)],
        grow := 2, food := Some (22, 14),
        particles := burst 301 203 twice_fed_rng 2 18, rcount := 76\<rparr>)"
  "stepSnake (twice_fed_start\<lparr>score := 10, snake := [(18, 14), (19, 14), (20, 14), (21, 14)],
        grow := 2, food := Some (22, 14),
        particles := burst 301 203 twice_fed_rng 2 18, rcount := 76\<rparr>) =
     Some (twice_fed_start\<lparr>score := 20,
        snake := [(18, 14), (19, 14), (20, 14), (21, 14), (22, 14)],
        prevSnake := [(18, 14), (19, 14), (20, 14), (21, 14)],
        grow := 3, food := Some (0, 0),
        particles := burst 301 203 twice_fed_rng 2 18 @ burst 315 203 twice_fed_rng 76 18,
        rcount := 150\<rparr>)"
  by (subst stepSnake_eat_first_free;
      simp add: eval_defs twice_fed_start_def twice_fed_rng_def)+

lemma twice_fed_moves:
  "stepSnake (twice_fed_start\<lparr>score := 20,
        snake := [(18, 14), (19, 14), (20, 14), (21, 14), (22, 14)],
        prevSnake := [(18, 14), (19, 14), (20, 14), (21, 14)],
        grow := 3, food := Some (0, 0),
        particles := burst 301 203 twice_fed_rng 2 18 @ burst 315 203 twice_fed_rng 76 18,
        rcount := 150\<rparr>) =
     Some (twice_fed_start\<lparr>score := 20,
        snake := [(18, 14), (19, 14), (20, 14), (21, 14), (22, 14), (23, 14)],
        prevSnake := [(18, 14), (19, 14), (20, 14), (21, 14), (22, 14)],
        grow := 2, food := Some (0, 0),
        particles := burst 301 203 twice_fed_rng 2 18 @ burst 315 203 twice_fed_rng 76 18,
        rcount := 150\<rparr>)"
  "stepSnake (twice_fed_start\<lparr>score := 20,
        snake := [(18, 14), (19, 14), (20, 14), (21, 14), (22, 14), (23, 14)],
        prevSnake := [(18, 14), (19, 14), (20, 14), (21, 14), (22, 14)],
        grow := 2, food := Some (0, 0),
        particles := burst 301 203 twice_fed_rng 2 18 @ burst 315 203 twice_fed_rng 76 18,
        rcount := 150\<rparr>) =
     Some (twice_fed_start\<lparr>score := 20,
        snake := [(18, 14), (19, 14), (20, 14), (21, 14), (22, 14), (23, 14), (24, 14)],
        prevSnake := [(18, 14), (19, 14), (20, 14), (21, 14), (22, 14), (23, 14)],
        grow := 1, food := Some (0, 0),
        particles := burst 301 203 twice_fed_rng 2 18 @ burst 315 203 twice_fed_rng 76 18,
        rcount := 150\<rparr>)"
  "stepSnake (twice_fed_start\<lparr>score := 20,
        snake := [(18, 14), (19, 14), (20, 14), (21, 14), (22, 14), (23, 14), (24, 14)],
        prevSnake := [(18, 14), (19, 14), (20, 14), (21, 14), (22, 14), (23, 14)],
        grow := 1, food := Some (0, 0),
        particles := burst 301 203 twice_fed_rng 2 18 @ burst 315 203 twice_fed_rng 76 18,
        rcount := 150\<rparr>) =
     Some (twice_fed_start\<lparr>score := 20,
        snake := [(18, 14), (19, 14), (20, 14), (21, 14), (22, 14), (23, 14), (24, 14), (25, 14)],
        prevSnake := [(18, 14), (19, 14), (20, 14), (21, 14), (22, 14), (23, 14), (24, 14)],
        grow := 0, food := Some (0, 0),
        particles := burst 301 203 twice_fed_rng 2 18 @ burst 315 203 twice_fed_rng 76 18,
        rcount := 150\<rparr>)"
  "stepSnake (twice_fed_start\<lparr>score := 20,
        snake := [(18, 14), (19, 14), (20, 14), (21, 14), (22, 14), (23, 14), (24, 14), (25, 14)],
        prevSnake := [(18, 14), (19, 14), (20, 14), (21, 14), (22, 14), (23, 14), (24, 14)],
        grow := 0, food := Some (0, 0),
        particles := burst 301 203 twice_fed_rng 2 18 @ burst 315 203 twice_fed_rng 76 18,
        rcount := 150\<rparr>) =
     Some (twice_fed_start\<lparr>score := 20,
        snake := [(19, 14), (20, 14), (21, 14), (22, 14), (23, 14), (24, 14), (25, 14), (26, 14)],
        prevSnake := [(18, 14), (19, 14), (20, 14), (21, 14), (22, 14), (23, 14), (24, 14), (25, 14)],
        grow := 0, food := Some (0, 0),
        particles := burst 301 203 twice_fed_rng 2 18 @ burst 315 203 twice_fed_rng 76 18,
        rcount := 150\<rparr>)"
  by (subst stepSnake_move; simp add: eval_defs twice_fed_start_def)+

lemma run_steps_numeral:
  "run_steps (numeral k) s =
     (if \<not> playing s then Some s
      else case stepSnake s of None \<Rightarrow> None | Some s' \<Rightarrow> run_steps (pred_numeral k) s')"
  by (simp add: numeral_eq_Suc)

lemma playing_twice_fed_start: "playing twice_fed_start"
  by (simp add: twice_fed_start_def)

lemma stepSnake_length:
  assumes "snake s \<noteq> []" and "\<not> hits_wall s" and "\<not> hits_body s"
  shows "\<exists>s'. stepSnake s = Some s'
        \<and> length (snake s') = (if grow s > 0 then length (snake s) + 1 else length (snake s))
        \<and> grow s' = (if grow s > 0 then grow s - 1 else grow s)
                      + (if food s = Some (new_head s) then 2 else 0)"
  using assms(1)
proof (cases rule: stepSnake_cases)
  case collision
  with assms show ?thesis by simp
next
  case move
  then show ?thesis by (simp add: moved_body_def grow_after_move_def)
next
  case (eat c k)
  then show ?thesis by (simp add: moved_body_def grow_after_move_def)
qed

lemma quiet_step:
  assumes "quiet s" and "stepSnake s = Some s'"
  shows "length (snake s') = (if grow s > 0 then length (snake s) + 1 else length (snake s))"
    and "grow s' = (if grow s > 0 then grow s - 1 else grow s)"
  using stepSnake_length [of s] assms by (auto simp: quiet_def)

lemma keydown_Space_init: "keydown ''Space'' (init 0 (\<lambda>n. 0)) = fresh_game"
  apply (simp add: keydown_def keyDirMap_def startNewGame_def Let_def GRID_W_def GRID_H_def
      init_def)
  apply (subst placeFood_first_free)
   apply (simp add: food_candidate_def)
  apply (simp add: food_candidate_def fresh_game_def)
  done

lemma turn_run: "run_events turn_events (init 0 (\<lambda>n. 0)) = Some turned_state"
proof -
  let ?s2 = "fresh_game\<lparr>stepProgress := 3 / 4, lastT := 100\<rparr>"
  let ?s3 = "fresh_game\<lparr>stepProgress := 1 / 2,
       snake := [(18, 14), (19, 14), (20, 14), (21, 14)], lastT := 200\<rparr>"
  let ?s4 = "fresh_game\<lparr>stepProgress := 1 / 2,
       snake := [(18, 14), (19, 14), (20, 14), (21, 14)], nextDir := DIRS_up, lastT := 200\<rparr>"
  have e2: "loop 100 fresh_game = Some ?s2"
    by (simp add: loop_eq loop_steps_no_step STEPS_PER_SECOND_def fresh_game_def)
  have e3: "loop 200 ?s2 = Some ?s3"
    apply (simp add: loop_eq)
    apply (subst loop_steps_one_step)
        apply (simp_all add: STEPS_PER_SECOND_def fresh_game_def)
    apply (subst stepSnake_move)
        apply (simp_all add: eval_defs)
    done
  have e4: "keydown ''ArrowUp'' ?s3 = ?s4"
    by (simp add: keydown_def keyDirMap_def queueDirection_def DIRS_right_def DIRS_up_def
        fresh_game_def)
  have e5: "loop 300 ?s4 = Some turned_state"
    apply (simp add: loop_eq)
    apply (subst loop_steps_one_step)
        apply (simp_all add: STEPS_PER_SECOND_def fresh_game_def)
    apply (subst stepSnake_move)
        apply (simp_all add: eval_defs turned_state_def fresh_game_def)
    done
  show ?thesis
    unfolding turn_events_def
    by (simp add: keydown_Space_init e2 e3 e4 e5)
qed

lemma double_turn_run:
  "run_events [Keydown ''Space'', Keydown ''ArrowUp'', Frame 16] (init 0 (\<lambda>n. 0)) =
     Some (fresh_game\<lparr>stepProgress := 3 / 25, dir := DIRS_up, nextDir := DIRS_up, lastT := 16\<rparr>)"
  "run_events double_turn (init 0 (\<lambda>n. 0)) =
     Some (fresh_game\<lparr>stepProgress := 6 / 25, dir := DIRS_left, nextDir := DIRS_left,
       lastT := 32\<rparr>)"
  "run_events (double_turn @ [Frame 132, Frame 232]) (init 0 (\<lambda>n. 0)) =
     Some (reversing_state\<lparr>playing := False, gameOver := True,
       particles := update_particles binary64 (1 / 10) (burst 287 203 (\<lambda>n. 0) 2 36), rcount := 146\<rparr>)"
proof -
  let ?s2 = "fresh_game\<lparr>nextDir := DIRS_up\<rparr>"
  let ?s3 = "fresh_game\<lparr>stepProgress := 3 / 25, dir := DIRS_up, nextDir := DIRS_up, lastT := 16\<rparr>"
  let ?s4 = "fresh_game\<lparr>stepProgress := 3 / 25, dir := DIRS_up, nextDir := DIRS_left, lastT := 16\<rparr>"
  let ?s5 = "fresh_game\<lparr>stepProgress := 6 / 25, dir := DIRS_left, nextDir := DIRS_left,
       lastT := 32\<rparr>"
  let ?s6 = "fresh_game\<lparr>stepProgress := 99 / 100, dir := DIRS_left, nextDir := DIRS_left,
       lastT := 132\<rparr>"
  let ?s7 = "reversing_state\<lparr>playing := False, gameOver := True,
       particles := update_particles binary64 (1 / 10) (burst 287 203 (\<lambda>n. 0) 2 36), rcount := 146\<rparr>"
  have e2: "keydown ''ArrowUp'' fresh_game = ?s2"
    by (simp add: keydown_def keyDirMap_def queueDirection_def DIRS_right_def DIRS_up_def
        fresh_game_def)
  have e3: "loop 16 ?s2 = Some ?s3"
    by (simp add: loop_eq loop_steps_no_step STEPS_PER_SECOND_def fresh_game_def)
  have e4: "keydown ''ArrowLeft'' ?s3 = ?s4"
    by (simp add: keydown_def keyDirMap_def queueDirection_def DIRS_left_def DIRS_up_def
        fresh_game_def)
  have e5: "loop 32 ?s4 = Some ?s5"
    by (simp add: loop_eq loop_steps_no_step STEPS_PER_SECOND_def fresh_game_def)
  have e6: "loop 132 ?s5 = Some ?s6"
    by (simp add: loop_eq loop_steps_no_step STEPS_PER_SECOND_def fresh_game_def)
  have e7: "loop 232 ?s6 = Some ?s7"
    apply (simp add: loop_eq)
    apply (subst loop_steps_one_step)
        apply (simp_all add: STEPS_PER_SECOND_def fresh_game_def)
    apply (subst stepSnake_collision)
      apply (simp_all add: eval_defs reversing_state_def fresh_game_def)
    done
  show "run_events [Keydown ''Space'', Keydown ''ArrowUp'', Frame 16] (init 0 (\<lambda>n. 0)) = Some ?s3"
    by (simp add: keydown_Space_init e2 e3)
  show "run_events double_turn (init 0 (\<lambda>n. 0)) = Some ?s5"
    unfolding double_turn_def by (simp add: keydown_Space_init e2 e3 e4 e5)
  show "run_events (double_turn @ [Frame 132, Frame 232]) (init 0 (\<lambda>n. 0)) = Some ?s7"
    unfolding double_turn_def by (simp add: keydown_Space_init e2 e3 e4 e5 e6 e7)
qed

lemma map_filter_append: "List.map_filter f (xs @ ys) = List.map_filter f xs @ List.map_filter f ys"
  by (simp add: List.map_filter_def)

lemma particles_loop_eq:
  "k \<le> length ps \<Longrightarrow>
     particles_loop ar dt k ps = List.map_filter (particle_step ar dt) (take k ps) @ drop k ps"
proof (induction k arbitrary: ps)
  case 0
  then show ?case by (simp add: List.map_filter_def)
next
  case (Suc k)
  then have k: "k < length ps" by simp
  have tk: "take (Suc k) ps = take k ps @ [ps ! k]"
    using k by (simp add: take_Suc_conv_app_nth)
  show ?case
  proof (cases "fl_sub ar (p_life (ps ! k)) dt \<le> 0")
    case True
    have "particles_loop ar dt (Suc k) ps = particles_loop ar dt k (take k ps @ drop (Suc k) ps)"
      using True by (simp add: Let_def)
    also have "\<dots> = List.map_filter (particle_step ar dt) (take k ps) @ drop (Suc k) ps"
      using k by (subst Suc.IH) simp_all
    also have "\<dots> = List.map_filter (particle_step ar dt) (take (Suc k) ps) @ drop (Suc k) ps"
      using True by (simp add: tk map_filter_append particle_step_def List.map_filter_def)
    finally show ?thesis .
  next
    case False
    let ?q = "move_particle ar dt ((ps ! k)\<lparr>p_life := fl_sub ar (p_life (ps ! k)) dt\<rparr>)"
    have "particles_loop ar dt (Suc k) ps = particles_loop ar dt k (ps[k := ?q])"
      using False by (simp add: Let_def)
    also have "\<dots> = List.map_filter (particle_step ar dt) (take k ps) @ ?q # drop (Suc k) ps"
      using k by (subst Suc.IH) (simp_all add: drop_update_swap Cons_nth_drop_Suc [symmetric] upd_conv_take_nth_drop)
    also have "\<dots> = List.map_filter (particle_step ar dt) (take (Suc k) ps) @ drop (Suc k) ps"
      using False by (simp add: tk map_filter_append particle_step_def List.map_filter_def)
    finally show ?thesis .
  qed
qed

lemma update_particles_eq:
  "update_particles ar dt ps = List.map_filter (particle_step ar dt) ps"
  by (simp add: update_particles_def particles_loop_eq)

lemma move_particle_eq:
  "move_particle ar dt p =
     p\<lparr>p_x := fl_add ar (p_x p) (fl_mul ar (p_vx p) dt),
       p_y := fl_add ar (p_y p)
                (fl_mul ar (fl_add ar (p_vy p)
                   (fl_mul ar (fl_mul ar (fl_lit ar 200) dt) (fl_lit ar 0.6))) dt),
       p_vx := fl_mul ar (p_vx p) (fl_lit ar 0.98),
       p_vy := fl_mul ar (fl_add ar (p_vy p)
                   (fl_mul ar (fl_mul ar (fl_lit ar 200) dt) (fl_lit ar 0.6)))
                 (fl_lit ar 0.98)\<rparr>"
  by (cases p) (simp add: move_particle_def Let_def)

lemma update_particles_append:
  "update_particles ar dt (ps @ qs) = update_particles ar dt ps @ update_particles ar dt qs"
  by (simp add: update_particles_eq map_filter_append)

lemma integrate_all_Nil [simp]: "integrate_all ar dts [] = []"
  by (induction dts) (simp_all add: update_particles_eq List.map_filter_def)

lemma integrate_all_append:
  "integrate_all ar dts (ps @ qs) = integrate_all ar dts ps @ integrate_all ar dts qs"
  by (induction dts arbitrary: ps qs) (simp_all add: update_particles_append)

lemma integrate_all_concat:
  "integrate_all ar dts ps = concat (map (\<lambda>p. integrate_all ar dts [p]) ps)"
proof (induction ps)
  case Nil
  show ?case by simp
next
  case (Cons p ps)
  have "integrate_all ar dts (p # ps) = integrate_all ar dts ([p] @ ps)" by simp
  also have "\<dots> = integrate_all ar dts [p] @ integrate_all ar dts ps"
    by (rule integrate_all_append)
  finally show ?case using Cons by simp
qed

lemma update_particles_single:
  "update_particles ar dt [p] =
     (if fl_sub ar (p_life p) dt \<le> 0 then []
      else [move_particle ar dt (p\<lparr>p_life := fl_sub ar (p_life p) dt\<rparr>)])"
  by (simp add: update_particles_eq List.map_filter_def particle_step_def)

lemma p_life_move_particle [simp]: "p_life (move_particle ar dt p) = p_life p"
  by (simp add: move_particle_eq)

lemma integrate_all_survives:
  "\<forall>k. 1 \<le> k \<and> k \<le> length dts \<longrightarrow> 0 < life_after ar (p_life p) (take k dts) \<Longrightarrow>
     \<exists>q. integrate_all ar dts [p] = [q] \<and> p_life q = life_after ar (p_life p) dts"
proof (induction dts arbitrary: p)
  case Nil
  show ?case by simp
next
  case (Cons dt dts)
  let ?p1 = "move_particle ar dt (p\<lparr>p_life := fl_sub ar (p_life p) dt\<rparr>)"
  have "0 < life_after ar (p_life p) (take 1 (dt # dts))"
    using Cons.prems by (intro Cons.prems [rule_format]) simp
  then have alive: "\<not> fl_sub ar (p_life p) dt \<le> 0" by simp
  have rest: "\<forall>k. 1 \<le> k \<and> k \<le> length dts \<longrightarrow> 0 < life_after ar (p_life ?p1) (take k dts)"
  proof (intro allI impI)
    fix k assume k: "1 \<le> k \<and> k \<le> length dts"
    then have "0 < life_after ar (p_life p) (take (Suc k) (dt # dts))"
      by (intro Cons.prems [rule_format]) simp
    then show "0 < life_after ar (p_life ?p1) (take k dts)" by simp
  qed
  from Cons.IH [OF rest] obtain q where "integrate_all ar dts [?p1] = [q]"
    and "p_life q = life_after ar (p_life ?p1) dts" by blast
  with alive show ?case by (simp add: update_particles_single)
qed

lemma integrate_all_removed:
  "\<exists>k. 1 \<le> k \<and> k \<le> length dts \<and> life_after ar (p_life p) (take k dts) \<le> 0 \<Longrightarrow>
     integrate_all ar dts [p] = []"
proof (induction dts arbitrary: p)
  case Nil
  then show ?case by simp
next
  case (Cons dt dts)
  then obtain k where k: "1 \<le> k" "k \<le> Suc (length dts)"
    "life_after ar (p_life p) (take k (dt # dts)) \<le> 0" by auto
  show ?case
  proof (cases "fl_sub ar (p_life p) dt \<le> 0")
    case True
    then show ?thesis by (simp add: update_particles_single)
  next
    case False
    let ?p1 = "move_particle ar dt (p\<lparr>p_life := fl_sub ar (p_life p) dt\<rparr>)"
    obtain j where j: "k = Suc j" using k(1) by (cases k) simp_all
    have "j \<noteq> 0"
    proof
      assume "j = 0"
      with k(3) j have "fl_sub ar (p_life p) dt \<le> 0" by simp
      with False show False by simp
    qed
    then have "1 \<le> j \<and> j \<le> length dts \<and> life_after ar (p_life ?p1) (take j dts) \<le> 0"
      using k j by simp
    then have "integrate_all ar dts [?p1] = []" using Cons.IH by blast
    with False show ?thesis by (simp add: update_particles_single)
  qed
qed

lemma life_after_exact: "life_after exact_arith L dts = L - sum_list dts"
  by (induction dts arbitrary: L) (simp_all add: exact_arith_def)

lemma dbl_binade:
  fixes k :: nat
  assumes "x \<noteq> 0" and "1 / 2 ^ k \<le> \<bar>x\<bar>" and "\<bar>x\<bar> < 2 / 2 ^ k" and "k \<le> 1022"
  shows "dbl x = real_of_int (round_half_even (x * 2 ^ (k + 52))) / 2 ^ (k + 52)"
proof -
  have pos: "0 < \<bar>x\<bar>" using assms(1) by simp
  have p1: "(2::real) powr - real k = 1 / 2 ^ k"
    by (simp add: powr_minus powr_realpow inverse_eq_divide)
  have p2: "(2::real) powr (1 - real k) = 2 / 2 ^ k"
  proof -
    have "(2::real) powr (1 - real k) = 2 powr 1 / 2 powr real k" by (rule powr_diff)
    then show ?thesis by (simp add: powr_realpow)
  qed
  have p3: "(2::real) powr - real (k + 52) = 1 / 2 ^ (k + 52)"
    by (simp only: powr_minus powr_realpow inverse_eq_divide zero_less_numeral)
  have "2 powr real_of_int (- int k) \<le> \<bar>x\<bar> \<and> \<bar>x\<bar> < 2 powr real_of_int (- int k + 1)"
    using assms(2,3) p1 p2 by simp
  then have fl: "\<lfloor>log 2 \<bar>x\<bar>\<rfloor> = - int k"
    using pos by (subst floor_log_eq_powr_iff) simp_all
  have mx: "max (- int k) (- 1022) = - int k" using assms(4) by simp
  have "real_of_int (- int k - 52) = - real (k + 52)" by simp
  then have u: "2 powr real_of_int (- int k - 52) = 1 / 2 ^ (k + 52)"
    using p3 by simp
  show ?thesis
    using assms(1) unfolding dbl_def Let_def fl mx u by simp
qed

lemma dbl_zero [simp]: "dbl 0 = 0"
  by (simp add: dbl_def)

text \<open>The doubles \<open>0.6\<close> and \<open>0.1\<close>, and the six subtractions of \<open>0.1\<close> from \<open>0.6\<close>.\<close>

lemma dbl_three_fifths: "dbl (3 / 5) = 5404319552844595 / 2 ^ 53"
  by (subst dbl_binade [where k = 1]) (simp_all add: round_half_even_def)

lemma dbl_one_tenth: "dbl (1 / 10) = 7205759403792794 / 2 ^ 56"
  by (subst dbl_binade [where k = 4]) (simp_all add: round_half_even_def)

lemma dbl_countdown:
  "dbl (5404319552844595 / 2 ^ 53 - 7205759403792794 / 2 ^ 56) = 1 / 2"
  "dbl (1 / 2 - 7205759403792794 / 2 ^ 56) = 7205759403792794 / 2 ^ 54"
  "dbl (7205759403792794 / 2 ^ 54 - 7205759403792794 / 2 ^ 56) = 5404319552844596 / 2 ^ 54"
  "dbl (5404319552844596 / 2 ^ 54 - 7205759403792794 / 2 ^ 56) = 7205759403792795 / 2 ^ 55"
  "dbl (7205759403792795 / 2 ^ 55 - 7205759403792794 / 2 ^ 56) = 7205759403792796 / 2 ^ 56"
  "dbl (7205759403792796 / 2 ^ 56 - 7205759403792794 / 2 ^ 56) = 1 / 2 ^ 55"
  "dbl (1 / 2 ^ 55 - 7205759403792794 / 2 ^ 56) = - (7205759403792792 / 2 ^ 56)"
        apply (subst dbl_binade [where k = 2]; simp add: round_half_even_def)
       apply (subst dbl_binade [where k = 2]; simp add: round_half_even_def)
      apply (subst dbl_binade [where k = 2]; simp add: round_half_even_def)
     apply (subst dbl_binade [where k = 3]; simp add: round_half_even_def)
    apply (subst dbl_binade [where k = 4]; simp add: round_half_even_def)
   apply (subst dbl_binade [where k = 55]; simp add: round_half_even_def)
  apply (subst dbl_binade [where k = 4]; simp add: round_half_even_def)
  done

lemma fl_sub_binary64: "fl_sub binary64 a b = dbl (a - b)"
  by (simp add: binary64_def)

lemma short_lived_countdown:
  "life_after binary64 (p_life short_lived) [clamp_dt] = 1 / 2"
  "life_after binary64 (p_life short_lived) [clamp_dt, clamp_dt] = 7205759403792794 / 2 ^ 54"
  "life_after binary64 (p_life short_lived) [clamp_dt, clamp_dt, clamp_dt] =
     5404319552844596 / 2 ^ 54"
  "life_after binary64 (p_life short_lived) [clamp_dt, clamp_dt, clamp_dt, clamp_dt] =
     7205759403792795 / 2 ^ 55"
  "life_after binary64 (p_life short_lived) [clamp_dt, clamp_dt, clamp_dt, clamp_dt, clamp_dt] =
     7205759403792796 / 2 ^ 56"
  "life_after binary64 (p_life short_lived)
     [clamp_dt, clamp_dt, clamp_dt, clamp_dt, clamp_dt, clamp_dt] = 1 / 2 ^ 55"
  "life_after binary64 (p_life short_lived)
     [clamp_dt, clamp_dt, clamp_dt, clamp_dt, clamp_dt, clamp_dt, clamp_dt] =
     - (7205759403792792 / 2 ^ 56)"
proof -
  have l: "p_life short_lived = 5404319552844595 / 2 ^ 53"
    unfolding short_lived_def by (simp only: particle.simps dbl_three_fifths)
  have d: "clamp_dt = 7205759403792794 / 2 ^ 56"
    unfolding clamp_dt_def by (rule dbl_one_tenth)
  show "life_after binary64 (p_life short_lived) [clamp_dt] = 1 / 2"
    "life_after binary64 (p_life short_lived) [clamp_dt, clamp_dt] = 7205759403792794 / 2 ^ 54"
    "life_after binary64 (p_life short_lived) [clamp_dt, clamp_dt, clamp_dt] =
       5404319552844596 / 2 ^ 54"
    "life_after binary64 (p_life short_lived) [clamp_dt, clamp_dt, clamp_dt, clamp_dt] =
       7205759403792795 / 2 ^ 55"
    "life_after binary64 (p_life short_lived) [clamp_dt, clamp_dt, clamp_dt, clamp_dt, clamp_dt] =
       7205759403792796 / 2 ^ 56"
    "life_after binary64 (p_life short_lived)
       [clamp_dt, clamp_dt, clamp_dt, clamp_dt, clamp_dt, clamp_dt] = 1 / 2 ^ 55"
    "life_after binary64 (p_life short_lived)
       [clamp_dt, clamp_dt, clamp_dt, clamp_dt, clamp_dt, clamp_dt, clamp_dt] =
       - (7205759403792792 / 2 ^ 56)"
    unfolding l d by (simp_all only: life_after.simps fl_sub_binary64 dbl_countdown)
qed

lemma dbl_dyadic: "dbl (3 / 16) = 3 / 16" "dbl (1 / 8) = 1 / 8" "dbl (1 / 16) = 1 / 16"
    apply (subst dbl_binade [where k = 3]; simp add: round_half_even_def)
   apply (subst dbl_binade [where k = 3]; simp add: round_half_even_def)
  apply (subst dbl_binade [where k = 4]; simp add: round_half_even_def)
  done

lemma keydown_Space_cornered:
  "keydown ''Space'' (init 0 cornered_rng) =
     \<lparr>running = True, playing = True, gameOver = False, score = 0, stepProgress = 0,
      snake = [(17, 14), (18, 14), (19, 14), (20, 14)],
      prevSnake = [(17, 14), (18, 14), (19, 14), (20, 14)],
      dir = DIRS_right, nextDir = DIRS_right, grow = 0, food = Some (2, 1),
      particles = [],
      lastT = 0, rng = cornered_rng, rcount = 2\<rparr>"
  apply (simp add: keydown_def keyDirMap_def startNewGame_def Let_def GRID_W_def GRID_H_def
      init_def)
  apply (subst placeFood_first_free)
   apply (simp add: food_candidate_def cornered_rng_def GRID_W_def GRID_H_def)
  apply (simp add: food_candidate_def cornered_rng_def GRID_W_def GRID_H_def)
  done

lemmas frame_eval = loop_eq loop_steps_no_step loop_steps_one_step stepSnake_move
  stepSnake_eat_first_free eval_defs STEPS_PER_SECOND_def

lemma keydown_arrows:
  "keydown ''ArrowLeft'' s = queueDirection DIRS_left s"
  "keydown ''ArrowRight'' s = queueDirection DIRS_right s"
  "keydown ''ArrowUp'' s = queueDirection DIRS_up s"
  "keydown ''ArrowDown'' s = queueDirection DIRS_down s"
  by (simp_all add: keydown_def keyDirMap_def)

lemma cornered_run_reaches:
  "run_events cornered_run (init 0 cornered_rng) = Some cornered_state"
  unfolding cornered_run_def cornered_state_def
  by (simp add: keydown_Space_cornered keydown_arrows queueDirection_def frame_eval
      cornered_rng_def)

lemma stepSnake_eat_fallback:
  assumes "snake s \<noteq> []" and "\<not> hits_wall s" and "\<not> hits_body s"
    and "food s = Some (new_head s)"
    and "\<forall>j<1000. food_candidate (rng s) (rcount s + 72) j \<in> set (moved_body s)"
  shows "stepSnake s =
     Some (s\<lparr>score := score s + 10, snake := moved_body s, prevSnake := snake s,
          grow := grow_after_move s + 2, food := Some (1, 1),
          particles := particles s @
            burst (cell_centre (fst (new_head s))) (cell_centre (snd (new_head s)))
              (rng s) (rcount s) 18,
          rcount := rcount s + 2072\<rparr>)"
  unfolding stepSnake_eat [OF assms(1-4)]
  using assms(5) by (subst placeFood_fallback) simp_all

section \<open>The claims\<close>

text \<open>
  Claim C1. In a state where the game is being played, when the new head (head plus
  current direction) is outside the grid or on a segment of the snake, \<open>stepSnake\<close>
  returns with \<open>playing\<close> false and \<open>gameOver\<close> true; it has pushed exactly 36 particles,
  all at the centre of the cell of the head before the collision; the snake, the score,
  the growth counter and the food are as before, and the previous snapshot is the snake.
  From then on the loop that issues steps does nothing, whatever the number of due steps,
  and no sequence of key presses, frames and calls of \<open>stop()\<close> that does not start a new
  game changes any variable a step assigns: the phase stays game over.
\<close>

theorem collision_ends_game:
  assumes "playing s" and "snake s \<noteq> []" and "hits_wall s \<or> hits_body s"
  shows "\<exists>s'. stepSnake s = Some s'
      \<and> playing s' = False \<and> gameOver s' = True
      \<and> snake s' = snake s \<and> prevSnake s' = snake s
      \<and> score s' = score s \<and> grow s' = grow s \<and> food s' = food s
      \<and> (\<exists>b. particles s' = particles s @ b \<and> length b = 36
            \<and> (\<forall>p\<in>set b. p_x p = cell_centre (fst (last (snake s)))
                          \<and> p_y p = cell_centre (snd (last (snake s)))))
      \<and> (\<forall>n. run_steps n s' = Some s')
      \<and> (\<forall>es. list_all (\<lambda>e. \<not> is_start e) es \<longrightarrow>
            (\<exists>s''. run_events es s' = Some s'' \<and> step_vars s'' = step_vars s'))"
proof -
  let ?b = "burst (cell_centre (fst (last (snake s)))) (cell_centre (snd (last (snake s))))
              (rng s) (rcount s) 36"
  let ?s' = "s\<lparr>playing := False, gameOver := True, prevSnake := snake s,
               particles := particles s @ ?b, rcount := rcount s + 144\<rparr>"
  have step: "stepSnake s = Some ?s'"
    using assms(2,3) by (rule stepSnake_collision)
  have b: "\<forall>p\<in>set ?b. p_x p = cell_centre (fst (last (snake s)))
                          \<and> p_y p = cell_centre (snd (last (snake s)))"
    using burst_origin by blast
  have parts: "\<exists>b. particles ?s' = particles s @ b \<and> length b = 36
            \<and> (\<forall>p\<in>set b. p_x p = cell_centre (fst (last (snake s)))
                          \<and> p_y p = cell_centre (snd (last (snake s))))"
    using b by (intro exI [of _ ?b]) simp
  have stop: "\<forall>n. run_steps n ?s' = Some ?s'"
    by (simp add: run_steps_not_playing)
  have frozen: "\<forall>es. list_all (\<lambda>e. \<not> is_start e) es \<longrightarrow>
            (\<exists>s''. run_events es ?s' = Some s'' \<and> step_vars s'' = step_vars ?s')"
    using run_events_frozen [of ?s'] by simp
  show ?thesis
    using step parts stop frozen by (intro exI [of _ ?s']) simp
qed

text \<open>
  The step from \<open>reversing_state\<close> hits the body: game over, 36 particles at the centre
  \<open>(287, 203)\<close> of the head cell, and neither due steps nor later frames, key presses or
  \<open>stop()\<close> change what a step assigns.
\<close>

theorem collision_ends_game_witness:
  "playing reversing_state \<and> snake reversing_state \<noteq> [] \<and> hits_body reversing_state
   \<and> (\<exists>s'. stepSnake reversing_state = Some s' \<and> playing s' = False \<and> gameOver s' = True
        \<and> snake s' = [(17, 14), (18, 14), (19, 14), (20, 14)] \<and> score s' = 0
        \<and> length (particles s') = 36
        \<and> list_all (\<lambda>p. p_x p = 287 \<and> p_y p = 203) (particles s')
        \<and> run_steps 3 s' = Some s'
        \<and> (\<exists>s''. run_events [Frame 332, Keydown ''ArrowUp'', DebugStop, Frame 432] s' = Some s''
              \<and> step_vars s'' = step_vars s'))"
proof -
  have pl: "playing reversing_state" and ne: "snake reversing_state \<noteq> []"
    and hb: "hits_body reversing_state"
    and sn: "snake reversing_state = [(17, 14), (18, 14), (19, 14), (20, 14)]"
    and sc: "score reversing_state = 0" and pa: "particles reversing_state = []"
    by (simp_all add: reversing_state_def fresh_game_def eval_defs)
  have cc: "cell_centre (fst (last (snake reversing_state))) = 287"
    "cell_centre (snd (last (snake reversing_state))) = 203"
    by (simp_all add: sn cell_centre_def CELL_def)
  have ns: "list_all (\<lambda>e. \<not> is_start e) [Frame 332, Keydown ''ArrowUp'', DebugStop, Frame 432]"
    by (simp add: is_start_def)
  from collision_ends_game [OF pl ne disjI2 [OF hb]] obtain s' b
    where s': "stepSnake reversing_state = Some s'" "playing s' = False" "gameOver s' = True"
      "snake s' = snake reversing_state" "score s' = score reversing_state"
      "particles s' = particles reversing_state @ b" "length b = 36"
      "\<forall>p\<in>set b. p_x p = cell_centre (fst (last (snake reversing_state)))
                  \<and> p_y p = cell_centre (snd (last (snake reversing_state)))"
      "\<forall>n. run_steps n s' = Some s'"
      "\<forall>es. list_all (\<lambda>e. \<not> is_start e) es \<longrightarrow>
            (\<exists>s''. run_events es s' = Some s'' \<and> step_vars s'' = step_vars s')"
    by blast
  have "list_all (\<lambda>p. p_x p = 287 \<and> p_y p = 203) (particles s')"
    using s'(6,8) by (simp add: pa cc list_all_iff)
  moreover have "length (particles s') = 36"
    using s'(6,7) by (simp add: pa)
  moreover have "run_steps 3 s' = Some s'"
    using s'(9) by blast
  moreover have "\<exists>s''. run_events [Frame 332, Keydown ''ArrowUp'', DebugStop, Frame 432] s' = Some s''
              \<and> step_vars s'' = step_vars s'"
    using s'(10) ns by blast
  ultimately have "\<exists>s'. stepSnake reversing_state = Some s' \<and> playing s' = False \<and> gameOver s' = True
        \<and> snake s' = [(17, 14), (18, 14), (19, 14), (20, 14)] \<and> score s' = 0
        \<and> length (particles s') = 36
        \<and> list_all (\<lambda>p. p_x p = 287 \<and> p_y p = 203) (particles s')
        \<and> run_steps 3 s' = Some s'
        \<and> (\<exists>s''. run_events [Frame 332, Keydown ''ArrowUp'', DebugStop, Frame 432] s' = Some s''
              \<and> step_vars s'' = step_vars s')"
    using s'(1-5) sn sc
    by - (rule exI [of _ s'], simp del: run_events.simps run_steps.simps)
  with pl ne hb show ?thesis by blast
qed

text \<open>
  Claim C2 as stated fails at \<open>cornered_state\<close>, which the page reaches by
  \<open>cornered_run\<close>. The step from it does not collide and eats. The growth counter goes
  from 2 to 3, an increase of 1 and not of 2; and since every one of the 1000 sampled cells
  is \<open>(2, 1)\<close>, on the snake, the food is placed on the cell \<open>(1, 1)\<close>, which the head of
  the snake occupies. The next frame of the run makes that step.
\<close>

theorem eat_step_counterexample:
  "run_events cornered_run (init 0 cornered_rng) = Some cornered_state
   \<and> \<not> hits_wall cornered_state \<and> \<not> hits_body cornered_state
   \<and> food cornered_state = Some (new_head cornered_state)
   \<and> grow cornered_state = 2
   \<and> stepSnake cornered_state =
       Some (cornered_state
         \<lparr>score := 20, snake := [(5, 1), (4, 1), (3, 1), (2, 1), (1, 1)],
          prevSnake := [(5, 1), (4, 1), (3, 1), (2, 1)], grow := 3, food := Some (1, 1),
          particles := particles cornered_state @ burst 21 21 cornered_rng 76 18,
          rcount := 2148\<rparr>)
   \<and> map_option (\<lambda>s. (score s, grow s, food s, snake s))
        (run_events (cornered_run @ [Frame 4300]) (init 0 cornered_rng)) =
       Some (20, 3, Some (1, 1), [(5, 1), (4, 1), (3, 1), (2, 1), (1, 1)])"
proof (intro conjI)
  show run: "run_events cornered_run (init 0 cornered_rng) = Some cornered_state"
    by (rule cornered_run_reaches)
  show "\<not> hits_wall cornered_state" "\<not> hits_body cornered_state"
    "food cornered_state = Some (new_head cornered_state)" "grow cornered_state = 2"
    by (simp_all add: cornered_state_def eval_defs)
  show "stepSnake cornered_state =
       Some (cornered_state
         \<lparr>score := 20, snake := [(5, 1), (4, 1), (3, 1), (2, 1), (1, 1)],
          prevSnake := [(5, 1), (4, 1), (3, 1), (2, 1)], grow := 3, food := Some (1, 1),
          particles := particles cornered_state @ burst 21 21 cornered_rng 76 18,
          rcount := 2148\<rparr>)"
    by (subst stepSnake_eat_fallback; simp add: cornered_state_def eval_defs cornered_rng_def)
  show "map_option (\<lambda>s. (score s, grow s, food s, snake s))
        (run_events (cornered_run @ [Frame 4300]) (init 0 cornered_rng)) =
       Some (20, 3, Some (1, 1), [(5, 1), (4, 1), (3, 1), (2, 1), (1, 1)])"
    unfolding run_events_append run
    apply (simp add: cornered_state_def loop_eq)
    apply (subst loop_steps_one_step; simp add: STEPS_PER_SECOND_def)
    apply (subst stepSnake_eat_fallback; simp add: eval_defs cornered_rng_def)
    done
qed

text \<open>
  Claim C2, amended. When the new head of a step that does not collide is the food cell,
  the step returns and afterwards: the score has increased by exactly 10; the growth
  counter is 2 more than its value after this step's own decrement, so it has increased by
  2 when it was 0 before the step and by 1 when it was positive; exactly 18 particles have
  been pushed, all at the centre of the food's prior cell; and the food has been placed
  again by \<open>placeFood\<close>, on the first of at most 1000 sampled cells that is not on the
  snake as it is after the move, or on the fixed cell \<open>(1, 1)\<close>, free or not, when all
  1000 sampled cells are on the snake.
\<close>

theorem eat_step:
  assumes "snake s \<noteq> []" and "\<not> hits_wall s" and "\<not> hits_body s"
    and "food s = Some (new_head s)"
  shows "\<exists>s'. stepSnake s = Some s'
      \<and> score s' = score s + 10
      \<and> grow s' = (if grow s > 0 then grow s - 1 else grow s) + 2
      \<and> snake s' = (if grow s > 0 then snake s @ [new_head s] else tl (snake s @ [new_head s]))
      \<and> (\<exists>b. particles s' = particles s @ b \<and> length b = 18
            \<and> (\<forall>p\<in>set b. p_x p = cell_centre (fst (new_head s))
                          \<and> p_y p = cell_centre (snd (new_head s))))
      \<and> ((\<exists>k<1000.
              (\<forall>j<k. food_candidate (rng s) (rcount s + 72) j \<in> set (snake s'))
              \<and> food_candidate (rng s) (rcount s + 72) k \<notin> set (snake s')
              \<and> food s' = Some (food_candidate (rng s) (rcount s + 72) k))
          \<or> ((\<forall>j<1000. food_candidate (rng s) (rcount s + 72) j \<in> set (snake s'))
              \<and> food s' = Some (1, 1)))"
proof -
  let ?b = "burst (cell_centre (fst (new_head s))) (cell_centre (snd (new_head s)))
              (rng s) (rcount s) 18"
  let ?t = "s\<lparr>score := score s + 10, snake := moved_body s, prevSnake := snake s,
          grow := grow_after_move s + 2, particles := particles s @ ?b,
          rcount := rcount s + 72\<rparr>"
  have step: "stepSnake s = Some (placeFood ?t)"
    using assms by (rule stepSnake_eat)
  have b: "\<exists>b. particles ?t = particles s @ b \<and> length b = 18
            \<and> (\<forall>p\<in>set b. p_x p = cell_centre (fst (new_head s))
                          \<and> p_y p = cell_centre (snd (new_head s)))"
    using burst_origin by (intro exI [of _ ?b]) auto
  define s' where "s' = placeFood ?t"
  obtain c k where shape: "s' = ?t\<lparr>food := Some c, rcount := rcount ?t + k\<rparr>"
    using placeFood_shape [of ?t] unfolding s'_def by blast
  have sc: "score s' = score s + 10"
    and gr: "grow s' = (if grow s > 0 then grow s - 1 else grow s) + 2"
    and sn: "snake s' = (if grow s > 0 then snake s @ [new_head s]
                         else tl (snake s @ [new_head s]))"
    and pa: "particles s' = particles ?t"
    and body: "snake s' = snake ?t"
    by (simp_all add: shape grow_after_move_def moved_body_def)
  have fd: "(\<exists>k<1000.
              (\<forall>j<k. food_candidate (rng s) (rcount s + 72) j \<in> set (snake s'))
              \<and> food_candidate (rng s) (rcount s + 72) k \<notin> set (snake s')
              \<and> food s' = Some (food_candidate (rng s) (rcount s + 72) k))
          \<or> ((\<forall>j<1000. food_candidate (rng s) (rcount s + 72) j \<in> set (snake s'))
              \<and> food s' = Some (1, 1))"
  proof (cases ?t rule: placeFood_cases)
    case (free k)
    have "food s' = Some (food_candidate (rng s) (rcount s + 72) k)"
      unfolding s'_def free(4) by simp
    moreover have "\<forall>j<k. food_candidate (rng s) (rcount s + 72) j \<in> set (snake s')"
      using free(2) unfolding body by simp
    moreover have "food_candidate (rng s) (rcount s + 72) k \<notin> set (snake s')"
      using free(3) unfolding body by simp
    ultimately show ?thesis using free(1) by blast
  next
    case fallback
    have "food s' = Some (1, 1)"
      unfolding s'_def fallback(2) by simp
    moreover have "\<forall>j<1000. food_candidate (rng s) (rcount s + 72) j \<in> set (snake s')"
      using fallback(1) unfolding body by simp
    ultimately show ?thesis by blast
  qed
  from b pa have b': "\<exists>b. particles s' = particles s @ b \<and> length b = 18
            \<and> (\<forall>p\<in>set b. p_x p = cell_centre (fst (new_head s))
                          \<and> p_y p = cell_centre (snd (new_head s)))"
    by simp
  from step have "stepSnake s = Some s'" by (simp add: s'_def)
  with sc gr sn b' fd show ?thesis by blast
qed

text \<open>
  In \<open>fed_state\<close> the growth counter is 0: the meal brings it to 2 and the score to 10.
\<close>

theorem eat_step_witness:
  "snake fed_state \<noteq> [] \<and> \<not> hits_wall fed_state \<and> \<not> hits_body fed_state
   \<and> food fed_state = Some (new_head fed_state)
   \<and> (\<exists>s'. stepSnake fed_state = Some s' \<and> score s' = 10 \<and> grow s' = 2
         \<and> length (particles s') = 18 \<and> food s' = Some (0, 0))"
proof -
  have nh: "new_head fed_state = (21, 14)"
    by (simp add: new_head_def fed_state_def DIRS_right_def)
  have ne: "snake fed_state \<noteq> []"
    by (simp add: fed_state_def)
  have nw: "\<not> hits_wall fed_state"
    by (simp add: hits_wall_def nh GRID_W_def GRID_H_def)
  have nb: "\<not> hits_body fed_state"
    by (simp add: hits_body_def nh) (simp add: fed_state_def)
  have fd: "food fed_state = Some (new_head fed_state)"
    by (simp add: nh) (simp add: fed_state_def)
  have cand: "food_candidate (rng fed_state) (rcount fed_state + 72) k = (0, 0)" for k
    by (simp add: food_candidate_def fed_state_def)
  from eat_step [OF ne nw nb fd] obtain s' b where s': "stepSnake fed_state = Some s'"
    "score s' = score fed_state + 10"
    "grow s' = (if grow fed_state > 0 then grow fed_state - 1 else grow fed_state) + 2"
    "snake s' = (if grow fed_state > 0 then snake fed_state @ [new_head fed_state]
                 else tl (snake fed_state @ [new_head fed_state]))"
    "particles s' = particles fed_state @ b" "length b = 18"
    "(\<exists>k<1000. food s' = Some (food_candidate (rng fed_state) (rcount fed_state + 72) k))
      \<or> food s' = Some (1, 1) \<and> (\<forall>j<1000. food_candidate (rng fed_state) (rcount fed_state + 72) j \<in> set (snake s'))"
    by blast
  from s'(4) have body: "snake s' = [(18, 14), (19, 14), (20, 14), (21, 14)]"
    by (simp add: nh) (simp add: fed_state_def)
  have "food s' = Some (0, 0)"
  proof -
    have "(0, 0) \<notin> set (snake s')" by (simp add: body)
    then have "\<not> (\<forall>j<1000. food_candidate (rng fed_state) (rcount fed_state + 72) j
        \<in> set (snake s'))"
      unfolding cand by (intro notI) (drule spec [of _ 0], simp)
    with s'(7) show ?thesis unfolding cand by blast
  qed
  moreover have "score s' = 10" "grow s' = 2" "length (particles s') = 18"
    using s'(2,3,5,6) by (simp_all add: fed_state_def)
  ultimately show ?thesis
    using ne nw nb fd s'(1) by blast
qed

text \<open>
  Claim C3. In every state the page can reach from its start by key presses, frames and
  calls of the debugging helpers, and so in every state that follows \<open>startNewGame\<close> by
  any number of steps, the segments of the snake are pairwise distinct. Every event also
  runs to its end from such a state: no step reads the head of an empty snake.
\<close>

theorem snake_segments_distinct:
  "reachable s \<Longrightarrow> distinct (snake s) \<and> (\<forall>e. \<exists>s'. apply_event e s = Some s')"
  using reachable_body_ok [of s] apply_event_total [of s] by (simp add: body_ok_def)

text \<open>
  The state after \<open>turn_events\<close> is reachable, so its segments are distinct and the next
  frame runs to its end.
\<close>

theorem snake_segments_distinct_witness:
  "reachable turned_state \<and> distinct (snake turned_state)
   \<and> (\<exists>s'. apply_event (Frame 400) turned_state = Some s')"
proof -
  have "reachable (init 0 (\<lambda>n. 0))" by (rule reach_init)
  with turn_run have r: "reachable turned_state" by (rule run_events_reachable)
  from snake_segments_distinct [OF r] show ?thesis using r by blast
qed

text \<open>
  Claim C4 as stated fails in the game that starts with the values \<open>twice_fed_rng\<close>: the
  first step eats, the second step eats again, and the length of the snake, 4 after the
  first meal, grows at each of the steps 2, 3, 4 and 5. That is four steps of growth after
  the first meal and three after the second, not two; the sixth step keeps the length.
\<close>

theorem growth_after_eating_counterexample:
  "map_option (\<lambda>s. (score s, length (snake s), grow s))
      (run_steps 1 (startNewGame (init 0 twice_fed_rng))) = Some (10, 4, 2)
   \<and> map_option (\<lambda>s. (score s, length (snake s), grow s))
      (run_steps 2 (startNewGame (init 0 twice_fed_rng))) = Some (20, 5, 3)
   \<and> map_option (\<lambda>s. (score s, length (snake s), grow s))
      (run_steps 3 (startNewGame (init 0 twice_fed_rng))) = Some (20, 6, 2)
   \<and> map_option (\<lambda>s. (score s, length (snake s), grow s))
      (run_steps 4 (startNewGame (init 0 twice_fed_rng))) = Some (20, 7, 1)
   \<and> map_option (\<lambda>s. (score s, length (snake s), grow s))
      (run_steps 5 (startNewGame (init 0 twice_fed_rng))) = Some (20, 8, 0)
   \<and> map_option (\<lambda>s. (score s, length (snake s), grow s))
      (run_steps 6 (startNewGame (init 0 twice_fed_rng))) = Some (20, 8, 0)"
  unfolding twice_fed_start_eq
  by (simp add: run_steps_numeral twice_fed_steps twice_fed_moves playing_twice_fed_start)

text \<open>
  Claim C4, amended. A step that does not collide returns, and it leaves the length of the
  snake as it was when the growth counter was 0 before the step (the tail is removed), and
  makes it exactly 1 longer when the counter was positive; the counter is then one less,
  plus 2 when the step eats. So when the counter is 2, as it is after a meal taken with
  the counter at 0, and the next three steps neither collide nor eat, the snake grows by
  exactly 1 at each of the first two and keeps its length at the third. Meals taken while
  the snake still grows add to the counter, so the growth then lasts longer.
\<close>

theorem growth_per_step:
  "(snake s \<noteq> [] \<and> \<not> hits_wall s \<and> \<not> hits_body s \<longrightarrow>
      (\<exists>s'. stepSnake s = Some s'
        \<and> length (snake s') = (if grow s > 0 then length (snake s) + 1 else length (snake s))
        \<and> grow s' = (if grow s > 0 then grow s - 1 else grow s)
                      + (if food s = Some (new_head s) then 2 else 0)))
   \<and> (grow s = 2 \<and> quiet s \<and> stepSnake s = Some s1 \<and> quiet s1 \<and> stepSnake s1 = Some s2
        \<and> quiet s2 \<and> stepSnake s2 = Some s3 \<longrightarrow>
      length (snake s1) = length (snake s) + 1
      \<and> length (snake s2) = length (snake s) + 2
      \<and> length (snake s3) = length (snake s) + 2)"
proof (intro conjI impI)
  assume "snake s \<noteq> [] \<and> \<not> hits_wall s \<and> \<not> hits_body s"
  then show "\<exists>s'. stepSnake s = Some s'
        \<and> length (snake s') = (if grow s > 0 then length (snake s) + 1 else length (snake s))
        \<and> grow s' = (if grow s > 0 then grow s - 1 else grow s)
                      + (if food s = Some (new_head s) then 2 else 0)"
    using stepSnake_length by blast
next
  assume a: "grow s = 2 \<and> quiet s \<and> stepSnake s = Some s1 \<and> quiet s1 \<and> stepSnake s1 = Some s2
        \<and> quiet s2 \<and> stepSnake s2 = Some s3"
  then have 1: "length (snake s1) = length (snake s) + 1" "grow s1 = 1"
    using quiet_step [of s s1] by simp_all
  with a have 2: "length (snake s2) = length (snake s) + 2" "grow s2 = 0"
    using quiet_step [of s1 s2] by simp_all
  with a have 3: "length (snake s3) = length (snake s) + 2"
    using quiet_step [of s2 s3] by simp_all
  from 1 2 3 show "length (snake s1) = length (snake s) + 1"
    "length (snake s2) = length (snake s) + 2" "length (snake s3) = length (snake s) + 2"
    by simp_all
qed

text \<open>
  From \<open>growing_state\<close>, three steps to the right: lengths 5, 6 and 6.
\<close>

theorem growth_per_step_witness:
  "snake growing_state \<noteq> [] \<and> \<not> hits_wall growing_state \<and> \<not> hits_body growing_state
   \<and> grow growing_state = 2 \<and> quiet growing_state
   \<and> stepSnake growing_state =
       Some (growing_state\<lparr>snake := [(18, 14), (19, 14), (20, 14), (21, 14), (22, 14)],
          prevSnake := [(18, 14), (19, 14), (20, 14), (21, 14)], grow := 1\<rparr>)
   \<and> quiet (growing_state\<lparr>snake := [(18, 14), (19, 14), (20, 14), (21, 14), (22, 14)],
          prevSnake := [(18, 14), (19, 14), (20, 14), (21, 14)], grow := 1\<rparr>)
   \<and> stepSnake (growing_state\<lparr>snake := [(18, 14), (19, 14), (20, 14), (21, 14), (22, 14)],
          prevSnake := [(18, 14), (19, 14), (20, 14), (21, 14)], grow := 1\<rparr>) =
       Some (growing_state\<lparr>snake := [(18, 14), (19, 14), (20, 14), (21, 14), (22, 14), (23, 14)],
          prevSnake := [(18, 14), (19, 14), (20, 14), (21, 14), (22, 14)], grow := 0\<rparr>)
   \<and> quiet (growing_state\<lparr>snake := [(18, 14), (19, 14), (20, 14), (21, 14), (22, 14), (23, 14)],
          prevSnake := [(18, 14), (19, 14), (20, 14), (21, 14), (22, 14)], grow := 0\<rparr>)
   \<and> stepSnake (growing_state\<lparr>snake := [(18, 14), (19, 14), (20, 14), (21, 14), (22, 14), (23, 14)],
          prevSnake := [(18, 14), (19, 14), (20, 14), (21, 14), (22, 14)], grow := 0\<rparr>) =
       Some (growing_state\<lparr>snake := [(19, 14), (20, 14), (21, 14), (22, 14), (23, 14), (24, 14)],
          prevSnake := [(18, 14), (19, 14), (20, 14), (21, 14), (22, 14), (23, 14)], grow := 0\<rparr>)
   \<and> length (snake growing_state) = 4
   \<and> length (snake (growing_state\<lparr>snake := [(18, 14), (19, 14), (20, 14), (21, 14), (22, 14)],
          prevSnake := [(18, 14), (19, 14), (20, 14), (21, 14)], grow := 1\<rparr>)) = 4 + 1
   \<and> length (snake (growing_state\<lparr>snake := [(18, 14), (19, 14), (20, 14), (21, 14), (22, 14), (23, 14)],
          prevSnake := [(18, 14), (19, 14), (20, 14), (21, 14), (22, 14)], grow := 0\<rparr>)) = 4 + 2
   \<and> length (snake (growing_state\<lparr>snake := [(19, 14), (20, 14), (21, 14), (22, 14), (23, 14), (24, 14)],
          prevSnake := [(18, 14), (19, 14), (20, 14), (21, 14), (22, 14), (23, 14)], grow := 0\<rparr>)) = 4 + 2"
  (is "_ \<and> _ \<and> _ \<and> _ \<and> _ \<and> stepSnake _ = Some ?g1 \<and> _ \<and> stepSnake _ = Some ?g2 \<and> _
      \<and> stepSnake _ = Some ?g3 \<and> _")
proof -
  have q: "quiet growing_state" "quiet ?g1" "quiet ?g2"
    by (simp_all add: quiet_def eval_defs growing_state_def)
  have st: "stepSnake growing_state = Some ?g1" "stepSnake ?g1 = Some ?g2"
    "stepSnake ?g2 = Some ?g3"
    by (subst stepSnake_move; simp add: eval_defs growing_state_def)+
  have g: "grow growing_state = 2" and len: "length (snake growing_state) = 4"
    by (simp_all add: growing_state_def)
  have pre: "snake growing_state \<noteq> []" "\<not> hits_wall growing_state" "\<not> hits_body growing_state"
    using q(1) by (simp_all add: quiet_def)
  from growth_per_step [of growing_state ?g1 ?g2 ?g3] g q st
  have "length (snake ?g1) = length (snake growing_state) + 1
      \<and> length (snake ?g2) = length (snake growing_state) + 2
      \<and> length (snake ?g3) = length (snake growing_state) + 2"
    by blast
  with len pre g q st show ?thesis by simp
qed

text \<open>
  Claim C5 fails on the code. The main loop assigns the pending direction to the current
  direction at every frame at which the game is being played, whether or not a step is
  due. After Space the snake heads right. Up is queued and the next frame, which issues no
  step, commits it; Left is then accepted, since it reverses neither Up nor the pending
  Up, and the following frame, again without a step, commits it. The snake has not moved
  and the current direction has changed twice, to the reverse of the direction of travel.
  The first step that comes due runs the head into the body: the game is over with score 0.
\<close>

theorem direction_committed_at_every_frame:
  "map_option (\<lambda>s. (snake s, prevSnake s, dir s))
      (run_events [Keydown ''Space''] (init 0 (\<lambda>n. 0))) =
     Some ([(17, 14), (18, 14), (19, 14), (20, 14)], [(17, 14), (18, 14), (19, 14), (20, 14)],
           DIRS_right)
   \<and> map_option (\<lambda>s. (snake s, prevSnake s, dir s))
      (run_events [Keydown ''Space'', Keydown ''ArrowUp'', Frame 16] (init 0 (\<lambda>n. 0))) =
     Some ([(17, 14), (18, 14), (19, 14), (20, 14)], [(17, 14), (18, 14), (19, 14), (20, 14)],
           DIRS_up)
   \<and> map_option (\<lambda>s. (snake s, prevSnake s, dir s))
      (run_events double_turn (init 0 (\<lambda>n. 0))) =
     Some ([(17, 14), (18, 14), (19, 14), (20, 14)], [(17, 14), (18, 14), (19, 14), (20, 14)],
           DIRS_left)
   \<and> map_option (\<lambda>s. (playing s, gameOver s, score s, snake s))
      (run_events (double_turn @ [Frame 132, Frame 232]) (init 0 (\<lambda>n. 0))) =
     Some (False, True, 0, [(17, 14), (18, 14), (19, 14), (20, 14)])"
  unfolding double_turn_run
  by (simp add: keydown_Space_init reversing_state_def fresh_game_def)

text \<open>
  Claim C6. For every direction \<open>d\<close>, \<open>queueDirection d\<close> leaves the state, and so
  the pending direction, unchanged when \<open>d\<close> is the exact reverse of the committed
  direction or of the pending direction; otherwise it overwrites the pending direction
  with \<open>d\<close> and changes nothing else. The reverse of each of the four directions is the
  expected one.
\<close>

theorem queueDirection_rejects_reversal:
  "queueDirection d s =
     (if d = opposite (dir s) \<or> d = opposite (nextDir s) then s else s\<lparr>nextDir := d\<rparr>)
   \<and> opposite DIRS_left = DIRS_right \<and> opposite DIRS_right = DIRS_left
   \<and> opposite DIRS_up = DIRS_down \<and> opposite DIRS_down = DIRS_up"
  by (cases d) (auto simp: queueDirection_def opposite_def DIRS_left_def DIRS_right_def
      DIRS_up_def DIRS_down_def)




text \<open>
  Claim C8. \<open>placeFood\<close> is a total function (its loop is bounded by \<open>1000 - tries\<close>),
  and every call ends in one of two ways. Either some attempt \<open>k < 1000\<close> is the first whose
  sampled cell is not on the snake: the food is that cell, and \<open>2 * (k + 1)\<close> random
  numbers were drawn. Or all 1000 sampled cells are on the snake: the food is the fixed cell
  \<open>(1, 1)\<close>, after 2000 draws. Nothing but the food and the count of draws changes. When
  \<open>Math.random()\<close> returns values in \<open>[0, 1)\<close>, every sampled cell lies in the grid.
  (That the samples are uniform is a property of \<open>Math.random()\<close>, which is a parameter
  here.)
\<close>

theorem placeFood_free_cell_or_fallback:
  "((\<exists>k<1000.
        (\<forall>j<k. food_candidate (rng s) (rcount s) j \<in> set (snake s))
        \<and> food_candidate (rng s) (rcount s) k \<notin> set (snake s)
        \<and> placeFood s = s\<lparr>food := Some (food_candidate (rng s) (rcount s) k),
                               rcount := rcount s + 2 * (k + 1)\<rparr>)
    \<or> ((\<forall>j<1000. food_candidate (rng s) (rcount s) j \<in> set (snake s))
        \<and> placeFood s = s\<lparr>food := Some (1, 1), rcount := rcount s + 2000\<rparr>))
   \<and> (rng_in_unit (rng s) \<longrightarrow> (\<forall>k. in_grid (food_candidate (rng s) (rcount s) k)))"
proof
  show "(\<exists>k<1000.
        (\<forall>j<k. food_candidate (rng s) (rcount s) j \<in> set (snake s))
        \<and> food_candidate (rng s) (rcount s) k \<notin> set (snake s)
        \<and> placeFood s = s\<lparr>food := Some (food_candidate (rng s) (rcount s) k),
                               rcount := rcount s + 2 * (k + 1)\<rparr>)
    \<or> ((\<forall>j<1000. food_candidate (rng s) (rcount s) j \<in> set (snake s))
        \<and> placeFood s = s\<lparr>food := Some (1, 1), rcount := rcount s + 2000\<rparr>)"
    by (cases s rule: placeFood_cases) blast+
  show "rng_in_unit (rng s) \<longrightarrow> (\<forall>k. in_grid (food_candidate (rng s) (rcount s) k))"
    by (simp add: food_candidate_in_grid)
qed

text \<open>
  In \<open>crowded_state\<close> the first sample is on the snake and the second is free: the food
  is placed on the second, after four draws.
\<close>

theorem placeFood_free_cell_or_fallback_witness:
  "rng_in_unit (rng crowded_state)
   \<and> food_candidate (rng crowded_state) (rcount crowded_state) 0 \<in> set (snake crowded_state)
   \<and> food_candidate (rng crowded_state) (rcount crowded_state) (Suc 0) \<notin> set (snake crowded_state)
   \<and> food (placeFood crowded_state) = Some (0, 0)
   \<and> rcount (placeFood crowded_state) = 4
   \<and> in_grid (0, 0)"
proof -
  let ?c = "food_candidate (rng crowded_state) (rcount crowded_state)"
  have c0: "?c 0 = (20, 14)" and c1: "?c (Suc 0) = (0, 0)"
    by (simp_all add: food_candidate_def crowded_state_def GRID_W_def GRID_H_def)
  have body: "set (snake crowded_state) = {(17, 14), (18, 14), (19, 14), (20, 14)}"
    by (auto simp add: crowded_state_def)
  have unit: "rng_in_unit (rng crowded_state)"
    by (simp add: rng_in_unit_def crowded_state_def)
  have in0: "?c 0 \<in> set (snake crowded_state)" and out1: "?c (Suc 0) \<notin> set (snake crowded_state)"
    by (simp_all add: c0 c1 body)
  from placeFood_free_cell_or_fallback [of crowded_state]
  have grid: "in_grid (?c (Suc 0))"
    and alt: "(\<exists>k<1000. (\<forall>j<k. ?c j \<in> set (snake crowded_state))
        \<and> ?c k \<notin> set (snake crowded_state)
        \<and> placeFood crowded_state = crowded_state\<lparr>food := Some (?c k),
             rcount := rcount crowded_state + 2 * (k + 1)\<rparr>)
      \<or> ((\<forall>j<1000. ?c j \<in> set (snake crowded_state))
        \<and> placeFood crowded_state = crowded_state\<lparr>food := Some (1, 1),
             rcount := rcount crowded_state + 2000\<rparr>)"
    using unit by blast+
  have "Suc 0 < (1000::nat)" by simp
  with out1 have nofb: "\<not> (\<forall>j<1000. ?c j \<in> set (snake crowded_state))" by blast
  from alt nofb obtain k where k: "\<forall>j<k. ?c j \<in> set (snake crowded_state)"
    "?c k \<notin> set (snake crowded_state)"
    "placeFood crowded_state = crowded_state\<lparr>food := Some (?c k),
             rcount := rcount crowded_state + 2 * (k + 1)\<rparr>"
    by blast
  have "k = Suc 0"
  proof (rule ccontr)
    assume "k \<noteq> Suc 0"
    then consider "k = 0" | "Suc 0 < k" by linarith
    then show False
      using k(1,2) in0 out1 by cases auto
  qed
  with k(3) have "food (placeFood crowded_state) = Some (0, 0)"
    and "rcount (placeFood crowded_state) = 4"
    by (simp_all add: c1) (simp add: crowded_state_def)
  with unit in0 out1 grid show ?thesis by (simp add: c1)
qed

text \<open>
  Claim C9 as stated fails for a particle of lifetime \<open>0.6\<close> and frames of \<open>0.1\<close>
  seconds, both doubles. At the sixth pass the cumulative elapsed time, six times the
  double \<open>0.1\<close>, is at least the lifetime, the double \<open>0.6\<close>; but the six rounded
  subtractions leave the lifetime \<open>1 / 2 ^ 55\<close>, which is positive, and the particle is
  still there. It is removed at the seventh pass.
\<close>

theorem particle_lifetime_counterexample:
  "p_life short_lived \<le> sum_list [clamp_dt, clamp_dt, clamp_dt, clamp_dt, clamp_dt, clamp_dt]
   \<and> map p_life (integrate_all binary64
         [clamp_dt, clamp_dt, clamp_dt, clamp_dt, clamp_dt, clamp_dt] [short_lived]) =
       [1 / 2 ^ 55]
   \<and> integrate_all binary64
         [clamp_dt, clamp_dt, clamp_dt, clamp_dt, clamp_dt, clamp_dt, clamp_dt] [short_lived] = []"
proof (intro conjI)
  let ?six = "[clamp_dt, clamp_dt, clamp_dt, clamp_dt, clamp_dt, clamp_dt]"
  let ?seven = "[clamp_dt, clamp_dt, clamp_dt, clamp_dt, clamp_dt, clamp_dt, clamp_dt]"
  show "p_life short_lived \<le> sum_list ?six"
    by (simp add: short_lived_def clamp_dt_def dbl_three_fifths dbl_one_tenth)
  have pos: "\<forall>k. 1 \<le> k \<and> k \<le> length ?six \<longrightarrow>
      0 < life_after binary64 (p_life short_lived) (take k ?six)"
  proof (intro allI impI)
    fix k :: nat assume "1 \<le> k \<and> k \<le> length ?six"
    then have "k = 1 \<or> k = 2 \<or> k = 3 \<or> k = 4 \<or> k = 5 \<or> k = 6" by auto
    then show "0 < life_after binary64 (p_life short_lived) (take k ?six)"
      by (elim disjE) (simp_all add: short_lived_countdown del: life_after.simps)
  qed
  from integrate_all_survives [OF pos] obtain q
    where "integrate_all binary64 ?six [short_lived] = [q]"
      and "p_life q = life_after binary64 (p_life short_lived) ?six"
    by blast
  then show "map p_life (integrate_all binary64 ?six [short_lived]) = [1 / 2 ^ 55]"
    by (simp add: short_lived_countdown del: life_after.simps integrate_all.simps)
  have "\<exists>k. 1 \<le> k \<and> k \<le> length ?seven
      \<and> life_after binary64 (p_life short_lived) (take k ?seven) \<le> 0"
    by (intro exI [of _ 7]) (simp add: short_lived_countdown del: life_after.simps)
  then show "integrate_all binary64 ?seven [short_lived] = []"
    by (rule integrate_all_removed)
qed

text \<open>
  Claim C9, amended. One pass of the particle loop with elapsed time \<open>dt\<close> subtracts
  \<open>dt\<close> from the lifetime of every particle, in the arithmetic of doubles, keeps in
  their order the particles whose new lifetime is positive and removes the others. A
  particle it keeps has its vertical velocity increased by the gravity term
  \<open>200 * dt * 0.6\<close>, its position advanced by \<open>dt\<close> times the velocity (the vertical one
  after gravity, both before drag), and then both velocity components multiplied by 0.98,
  in that order, every operation rounded. Over successive passes the particles evolve
  independently. A particle is removed at the first pass at which its lifetime, after the
  rounded subtractions so far, is not positive; until then it is there with that lifetime.
  Were the subtractions exact, that would be the first pass at which the cumulative elapsed
  time is at least the initial lifetime; with rounding it can be a later pass.
\<close>

theorem particle_integration:
  "update_particles ar dt ps =
     map (\<lambda>p. \<lparr>p_x = fl_add ar (p_x p) (fl_mul ar (p_vx p) dt),
                p_y = fl_add ar (p_y p)
                        (fl_mul ar (fl_add ar (p_vy p)
                           (fl_mul ar (fl_mul ar (fl_lit ar 200) dt) (fl_lit ar 0.6))) dt),
                p_vx = fl_mul ar (p_vx p) (fl_lit ar 0.98),
                p_vy = fl_mul ar (fl_add ar (p_vy p)
                           (fl_mul ar (fl_mul ar (fl_lit ar 200) dt) (fl_lit ar 0.6)))
                         (fl_lit ar 0.98),
                p_life = fl_sub ar (p_life p) dt,
                p_size = p_size p\<rparr>)
       (filter (\<lambda>p. \<not> fl_sub ar (p_life p) dt \<le> 0) ps)
   \<and> integrate_all ar dts ps = concat (map (\<lambda>p. integrate_all ar dts [p]) ps)
   \<and> ((\<forall>k. 1 \<le> k \<and> k \<le> length dts \<longrightarrow> 0 < life_after ar (p_life q) (take k dts))
        \<longrightarrow> (\<exists>q'. integrate_all ar dts [q] = [q']
               \<and> p_life q' = life_after ar (p_life q) dts))
   \<and> ((\<exists>k. 1 \<le> k \<and> k \<le> length dts \<and> life_after ar (p_life q) (take k dts) \<le> 0)
        \<longrightarrow> integrate_all ar dts [q] = [])
   \<and> life_after exact_arith L dts = L - sum_list dts
   \<and> fl_sub binary64 a b = dbl (a - b)"
proof (intro conjI)
  have step: "the (particle_step ar dt p) =
      \<lparr>p_x = fl_add ar (p_x p) (fl_mul ar (p_vx p) dt),
                p_y = fl_add ar (p_y p)
                        (fl_mul ar (fl_add ar (p_vy p)
                           (fl_mul ar (fl_mul ar (fl_lit ar 200) dt) (fl_lit ar 0.6))) dt),
                p_vx = fl_mul ar (p_vx p) (fl_lit ar 0.98),
                p_vy = fl_mul ar (fl_add ar (p_vy p)
                           (fl_mul ar (fl_mul ar (fl_lit ar 200) dt) (fl_lit ar 0.6)))
                         (fl_lit ar 0.98),
                p_life = fl_sub ar (p_life p) dt,
                p_size = p_size p\<rparr>"
    if "\<not> fl_sub ar (p_life p) dt \<le> 0" for p :: particle
    using that by (cases p) (simp add: particle_step_def move_particle_eq)
  have none: "particle_step ar dt p \<noteq> None \<longleftrightarrow> \<not> fl_sub ar (p_life p) dt \<le> 0"
    for p :: particle
    by (simp add: particle_step_def)
  show "update_particles ar dt ps =
     map (\<lambda>p. \<lparr>p_x = fl_add ar (p_x p) (fl_mul ar (p_vx p) dt),
                p_y = fl_add ar (p_y p)
                        (fl_mul ar (fl_add ar (p_vy p)
                           (fl_mul ar (fl_mul ar (fl_lit ar 200) dt) (fl_lit ar 0.6))) dt),
                p_vx = fl_mul ar (p_vx p) (fl_lit ar 0.98),
                p_vy = fl_mul ar (fl_add ar (p_vy p)
                           (fl_mul ar (fl_mul ar (fl_lit ar 200) dt) (fl_lit ar 0.6)))
                         (fl_lit ar 0.98),
                p_life = fl_sub ar (p_life p) dt,
                p_size = p_size p\<rparr>)
       (filter (\<lambda>p. \<not> fl_sub ar (p_life p) dt \<le> 0) ps)"
    unfolding update_particles_eq List.map_filter_def none
    by (rule map_cong) (simp_all add: step)
  show "integrate_all ar dts ps = concat (map (\<lambda>p. integrate_all ar dts [p]) ps)"
    by (rule integrate_all_concat)
  show "(\<forall>k. 1 \<le> k \<and> k \<le> length dts \<longrightarrow> 0 < life_after ar (p_life q) (take k dts))
        \<longrightarrow> (\<exists>q'. integrate_all ar dts [q] = [q']
               \<and> p_life q' = life_after ar (p_life q) dts)"
    using integrate_all_survives by blast
  show "(\<exists>k. 1 \<le> k \<and> k \<le> length dts \<and> life_after ar (p_life q) (take k dts) \<le> 0)
        \<longrightarrow> integrate_all ar dts [q] = []"
    using integrate_all_removed by blast
  show "life_after exact_arith L dts = L - sum_list dts"
    by (rule life_after_exact)
  show "fl_sub binary64 a b = dbl (a - b)"
    by (rule fl_sub_binary64)
qed

text \<open>
  A particle with a quarter of a second to live, updated in the arithmetic of doubles with
  frames of a sixteenth of a second, which subtract without rounding: lifetimes
  \<open>3 / 16\<close>, \<open>1 / 8\<close>, \<open>1 / 16\<close>, and at the fourth pass 0, at which it is removed.
\<close>

theorem particle_integration_witness:
  "(\<exists>q'. integrate_all binary64 [1 / 16, 1 / 16, 1 / 16] [demo_particle] = [q']
        \<and> p_life q' = 1 / 16)
   \<and> integrate_all binary64 [1 / 16, 1 / 16, 1 / 16, 1 / 16] [demo_particle] = []"
proof -
  have l: "p_life demo_particle = 1 / 4" by (simp add: demo_particle_def)
  have three: "\<forall>k. 1 \<le> k \<and> k \<le> length [1 / 16, 1 / 16, 1 / 16 :: real]
      \<longrightarrow> 0 < life_after binary64 (p_life demo_particle) (take k [1 / 16, 1 / 16, 1 / 16])"
  proof (intro allI impI)
    fix k :: nat assume "1 \<le> k \<and> k \<le> length [1 / 16, 1 / 16, 1 / 16 :: real]"
    then have "k = 1 \<or> k = 2 \<or> k = 3" by auto
    then show "0 < life_after binary64 (p_life demo_particle) (take k [1 / 16, 1 / 16, 1 / 16])"
      by (elim disjE) (simp_all add: l fl_sub_binary64 dbl_dyadic)
  qed
  have four: "\<exists>k. 1 \<le> k \<and> k \<le> length [1 / 16, 1 / 16, 1 / 16, 1 / 16 :: real]
      \<and> life_after binary64 (p_life demo_particle) (take k [1 / 16, 1 / 16, 1 / 16, 1 / 16]) \<le> 0"
    by (intro exI [of _ 4]) (simp add: l fl_sub_binary64 dbl_dyadic)
  have end3: "life_after binary64 (p_life demo_particle) [1 / 16, 1 / 16, 1 / 16] = 1 / 16"
    by (simp add: l fl_sub_binary64 dbl_dyadic)
  note t3 = particle_integration [of binary64 _ _ "[1 / 16, 1 / 16, 1 / 16]" demo_particle]
  note t4 = particle_integration [of binary64 _ _ "[1 / 16, 1 / 16, 1 / 16, 1 / 16]" demo_particle]
  from t3 three obtain q' where q': "integrate_all binary64 [1 / 16, 1 / 16, 1 / 16] [demo_particle] = [q']"
    "p_life q' = life_after binary64 (p_life demo_particle) [1 / 16, 1 / 16, 1 / 16]"
    by blast
  with end3 have b: "\<exists>q'. integrate_all binary64 [1 / 16, 1 / 16, 1 / 16] [demo_particle] = [q']
      \<and> p_life q' = 1 / 16"
    by (intro exI [of _ q']) (simp del: integrate_all.simps life_after.simps)
  from t4 four have c: "integrate_all binary64 [1 / 16, 1 / 16, 1 / 16, 1 / 16] [demo_particle] = []"
    by blast
  from b c show ?thesis by blast
qed

text \<open>
  Claim C10. The debugging helper \<open>stop()\<close> sets \<open>playing\<close> to false and
  \<open>gameOver\<close> to true and changes nothing else: score, snake, previous snapshot, food,
  both directions, growth counter, interpolation progress and particles stay as they are.
  No random number is drawn and no particle is pushed, so no death burst is emitted.
\<close>

theorem stop_sets_phase_only:
  "SnakeGame_stop s = s\<lparr>playing := False, gameOver := True\<rparr>
   \<and> playing (SnakeGame_stop s) = False \<and> gameOver (SnakeGame_stop s) = True
   \<and> running (SnakeGame_stop s) = running s
   \<and> score (SnakeGame_stop s) = score s
   \<and> snake (SnakeGame_stop s) = snake s
   \<and> prevSnake (SnakeGame_stop s) = prevSnake s
   \<and> food (SnakeGame_stop s) = food s
   \<and> dir (SnakeGame_stop s) = dir s
   \<and> nextDir (SnakeGame_stop s) = nextDir s
   \<and> grow (SnakeGame_stop s) = grow s
   \<and> stepProgress (SnakeGame_stop s) = stepProgress s
   \<and> particles (SnakeGame_stop s) = particles s
   \<and> lastT (SnakeGame_stop s) = lastT s
   \<and> rng (SnakeGame_stop s) = rng s
   \<and> rcount (SnakeGame_stop s) = rcount s"
  by (simp add: SnakeGame_stop_def)

end
